(* ===== verification/Prelude.thy ===== *)
theory Prelude
  imports Main "HOL-Library.Word"
begin

text \<open>
  Shared vocabulary of the development: the byte type of the Rust program (\<open>u8\<close>),
  the \<open>contains_key\<close> test of a \<open>HashMap\<close> read as a partial map, the collections of
  facts the component theories feed, and generic lemmas on maps, lists and bytes that
  several components use.
\<close>

unbundle bit_operations_syntax

type_synonym byte = "8 word"

text \<open>A Rust \<open>HashMap<K, V>\<close> is a partial map \<open>K \<rightharpoonup> V\<close>; \<open>contains_key\<close> is \<open>m k \<noteq> None\<close>.\<close>

abbreviation contains_key :: "('k \<rightharpoonup> 'v) \<Rightarrow> 'k \<Rightarrow> bool" where
  "contains_key m k \<equiv> m k \<noteq> None"

named_theorems guard_defs "definitions of the FileData operations and of the guards of main"
named_theorems cycle_defs "definitions unfolded to run one iteration of the main loop"

subsection \<open>Bytes\<close>

lemma byte_xor_twice [simp]: "(b XOR k) XOR k = (b :: byte)"
  by (simp add: xor.assoc)

lemma byte_xor_eq_self_iff [simp]: "((b :: byte) XOR k = b) \<longleftrightarrow> k = 0"
proof
  assume "b XOR k = b"
  then have "b XOR (b XOR k) = b XOR b" by simp
  then show "k = 0" by (simp add: xor.assoc [symmetric])
qed simp

lemma unat_byte_inc:
  "unat (v :: byte) < 255 \<Longrightarrow> unat (v + 1) = unat v + 1"
  by (simp add: unat_word_ariths)

lemma byte_eq_3_iff: "(v :: byte) = 3 \<longleftrightarrow> unat v = 3"
  by (simp add: word_unat_eq_iff)

subsection \<open>Maps\<close>

lemma dom_map_upd_mono: "dom m \<subseteq> dom (m(k \<mapsto> v))"
  by auto

subsection \<open>Lists\<close>

lemma set_append_single_mono: "set xs \<subseteq> set (xs @ [x])"
  by auto

end
