(* ===== verification/Cipher.thy ===== *)
theory Cipher
  imports Prelude
begin

text \<open>
  The byte transformation of \<^verbatim>\<open>src/main.rs\<close>, \<open>process_file_data\<close> (lines 16--23): a
  vector of the input's capacity is filled by a \<open>for\<close> loop that pushes \<open>byte ^ key\<close>
  for each byte. The loop is \<open>process_file_data_loop\<close> with the pushed vector as an
  accumulator; \<open>xor_mask\<close> is the reference (a \<open>map\<close>) that the loop is proved equal to.
  The lemmas show the loop computes the byte-wise XOR with the key, which is the identity
  for key 0 (the reason \<open>main\<close> rejects that key) and changes every byte for any other
  key; applied twice with the same key it gives the input back, which the loop-level
  round trip of the session theory uses.
\<close>

unbundle bit_operations_syntax

fun process_file_data_loop :: "byte list \<Rightarrow> byte \<Rightarrow> byte list \<Rightarrow> byte list" where
  "process_file_data_loop [] key processed_data = processed_data"
| "process_file_data_loop (byte # data) key processed_data =
     process_file_data_loop data key (processed_data @ [byte XOR key])"

definition process_file_data :: "byte list \<Rightarrow> byte \<Rightarrow> byte list" where
  "process_file_data data key = process_file_data_loop data key []"

definition xor_mask :: "byte list \<Rightarrow> byte \<Rightarrow> byte list" where
  "xor_mask data key = map (\<lambda>b. b XOR key) data"

lemma process_file_data_loop_acc:
  "process_file_data_loop data key acc = acc @ map (\<lambda>b. b XOR key) data"
  by (induction data arbitrary: acc) simp_all

lemma process_file_data_map: "process_file_data data key = map (\<lambda>b. b XOR key) data"
  by (simp add: process_file_data_def process_file_data_loop_acc)

text \<open>C20: the loop that pushes \<open>byte ^ key\<close> computes the byte-wise mask of the input.\<close>

theorem process_file_data_eq_xor_mask:
  "process_file_data data key = xor_mask data key"
  by (simp add: process_file_data_map xor_mask_def)

text \<open>C21: key 0 leaves every file unchanged, and every other key changes every byte: the
  zero key is the only useless one.
\<close>

theorem process_file_data_zero_key:
  "process_file_data data 0 = data
   \<and> (key \<noteq> 0 \<longrightarrow> (\<forall>i < length data. process_file_data data key ! i \<noteq> data ! i))"
  by (auto simp: process_file_data_map)

theorem process_file_data_zero_key_witness:
  "process_file_data [5, 7] 0 = [5, 7 :: byte]
   \<and> (3 :: byte) \<noteq> 0
   \<and> process_file_data [5, 7] 3 ! 0 \<noteq> 5 \<and> process_file_data [5, 7] 3 ! 1 \<noteq> 7"
proof -
  have "\<forall>i < length [5, 7 :: byte]. process_file_data [5, 7] 3 ! i \<noteq> [5, 7 :: byte] ! i"
    using process_file_data_zero_key [of "[5, 7]" 3] by simp
  moreover have "process_file_data [5, 7] 0 = [5, 7 :: byte]"
    using process_file_data_zero_key [of "[5, 7]" 3] by simp
  ultimately show ?thesis by (metis length_Cons list.size(3) nth_Cons_0 nth_Cons_Suc
      One_nat_def zero_less_Suc lessI zero_neq_numeral)
qed

end
