(* ===== verification/Utf8.thy ===== *)
theory Utf8
  imports Prelude
begin

text \<open>
  UTF-8 as Rust's standard library reads it; none of this is code of the repository, and
  it is modelled after the library (\<open>core::str::validations\<close>): \<open>read_line\<close> accepts a
  line only if its bytes are UTF-8 (\<open>run_utf8_validation\<close>), and \<open>str::trim\<close> walks the
  characters of a string (\<open>next_code_point\<close>). A string of the model is its bytes, one
  \<open>char\<close> per byte. \<open>utf8_next\<close> splits the first character off a byte string, with the
  width table of the library (\<open>utf8_char_width\<close>) and its checks of the second byte
  that reject overlong forms, surrogates and values above \<open>0x10FFFF\<close>;
  \<open>utf8_chars\<close> splits a whole string into its characters and fails on bytes that are
  not UTF-8; \<open>char_value\<close> is the character's code point. The lemmas show that the
  split is exact and unique (its characters concatenate to the string and each is one
  well-formed sequence) and that every character read is a Rust \<open>char\<close>: a Unicode
  scalar value in its shortest encoding.
\<close>

text \<open>The width of a character from its first byte (\<open>UTF8_CHAR_WIDTH\<close>); 0 for bytes
  that cannot start one.\<close>

definition utf8_char_width :: "nat \<Rightarrow> nat" where
  "utf8_char_width b =
     (if b < 0x80 then 1 else if b < 0xC2 then 0 else if b < 0xE0 then 2
      else if b < 0xF0 then 3 else if b < 0xF5 then 4 else 0)"

definition is_cont :: "nat \<Rightarrow> bool" where
  "is_cont b \<longleftrightarrow> 0x80 \<le> b \<and> b < 0xC0"

text \<open>The ranges allowed for the second byte of a 3- and 4-byte sequence, which exclude
  overlong encodings, surrogates and code points above \<open>0x10FFFF\<close>.\<close>

definition second_ok :: "nat \<Rightarrow> nat \<Rightarrow> bool" where
  "second_ok first b \<longleftrightarrow>
     (first = 0xE0 \<and> 0xA0 \<le> b \<and> b < 0xC0)
     \<or> (0xE1 \<le> first \<and> first \<le> 0xEC \<and> is_cont b)
     \<or> (first = 0xED \<and> 0x80 \<le> b \<and> b < 0xA0)
     \<or> (0xEE \<le> first \<and> first \<le> 0xEF \<and> is_cont b)
     \<or> (first = 0xF0 \<and> 0x90 \<le> b \<and> b < 0xC0)
     \<or> (0xF1 \<le> first \<and> first \<le> 0xF3 \<and> is_cont b)
     \<or> (first = 0xF4 \<and> 0x80 \<le> b \<and> b < 0x90)"

text \<open>One character's bytes, checked as \<open>run_utf8_validation\<close> checks them.\<close>

fun utf8_seq_ok :: "nat list \<Rightarrow> bool" where
  "utf8_seq_ok [b] \<longleftrightarrow> b < 0x80"
| "utf8_seq_ok [b, c] \<longleftrightarrow> utf8_char_width b = 2 \<and> is_cont c"
| "utf8_seq_ok [b, c, d] \<longleftrightarrow> utf8_char_width b = 3 \<and> second_ok b c \<and> is_cont d"
| "utf8_seq_ok [b, c, d, e] \<longleftrightarrow>
     utf8_char_width b = 4 \<and> second_ok b c \<and> is_cont d \<and> is_cont e"
| "utf8_seq_ok _ \<longleftrightarrow> False"

text \<open>The first character of a byte string and the bytes after it.\<close>

definition utf8_next :: "string \<Rightarrow> (string \<times> string) option" where
  "utf8_next s =
     (case s of
        [] \<Rightarrow> None
      | c # _ \<Rightarrow>
          (let w = utf8_char_width (of_char c) in
           if w \<noteq> 0 \<and> utf8_seq_ok (map of_char (take w s)) then Some (take w s, drop w s)
           else None))"

text \<open>\<open>str::from_utf8\<close> followed by \<open>str::chars\<close>: the characters of a byte string, each
  as its bytes, or \<open>None\<close> when the bytes are not UTF-8.\<close>

function utf8_chars :: "string \<Rightarrow> string list option" where
  "utf8_chars s =
     (if s = [] then Some []
      else case utf8_next s of
             None \<Rightarrow> None
           | Some (ch, rest) \<Rightarrow> map_option (Cons ch) (utf8_chars rest))"
  by pat_completeness auto
termination
  by (relation "measure length")
     (auto simp: utf8_next_def Let_def split: list.splits if_splits)

text \<open>\<open>next_code_point\<close>: the code point of one character's bytes, with the masks of
  the library written as remainders.\<close>

fun code_point :: "nat list \<Rightarrow> nat" where
  "code_point [b] = b"
| "code_point [b, c] = (b mod 32) * 64 + c mod 64"
| "code_point [b, c, d] = (b mod 32) * 4096 + (c mod 64) * 64 + d mod 64"
| "code_point [b, c, d, e] = (b mod 32 mod 8) * 262144 + (c mod 64) * 4096 + (d mod 64) * 64 + e mod 64"
| "code_point _ = 0"

definition utf8_char :: "string \<Rightarrow> bool" where
  "utf8_char ch \<longleftrightarrow> utf8_seq_ok (map of_char ch)"

text \<open>\<open>char::len_utf8\<close>: the number of bytes of the shortest encoding of a code point.\<close>

definition len_utf8 :: "nat \<Rightarrow> nat" where
  "len_utf8 code = (if code < 0x80 then 1 else if code < 0x800 then 2 else if code < 0x10000 then 3 else 4)"

definition char_value :: "string \<Rightarrow> nat" where
  "char_value ch = code_point (map of_char ch)"

lemma utf8_seq_ok_length:
  "utf8_seq_ok bs \<Longrightarrow> bs \<noteq> [] \<and> length bs = utf8_char_width (hd bs)"
  by (cases bs rule: utf8_seq_ok.cases) (auto simp: utf8_char_width_def)

lemma utf8_char_next_append:
  assumes "utf8_char ch"
  shows "utf8_next (ch @ s) = Some (ch, s)"
proof -
  have l: "ch \<noteq> [] \<and> length ch = utf8_char_width (of_char (hd ch))"
    using utf8_seq_ok_length [of "map of_char ch"] assms by (cases ch) (auto simp: utf8_char_def)
  then obtain c t where ch: "ch = c # t" by (cases ch) auto
  have w: "utf8_char_width (of_char c) = Suc (length t)" using l ch by simp
  with ch assms show ?thesis by (simp add: utf8_next_def utf8_char_def Let_def)
qed

lemma utf8_next_Some:
  "utf8_next s = Some (ch, rest) \<Longrightarrow> s = ch @ rest \<and> utf8_char ch"
  by (auto simp: utf8_next_def Let_def utf8_char_def split: list.splits if_splits)

lemma offset_mod: "(m :: nat) dvd a \<Longrightarrow> (a + x) mod m = x mod m"
  by (auto elim!: dvdE)

lemma seq_ok_value_2:
  assumes "utf8_seq_ok [b, c]"
  shows "0x80 \<le> code_point [b, c] \<and> code_point [b, c] < 0x800"
proof -
  have r: "194 \<le> b" "b < 224" "128 \<le> c" "c < 192"
    using assms by (auto simp: utf8_char_width_def is_cont_def split: if_splits)
  define x y where "x = b - 192" and "y = c - 128"
  with r have "b = 192 + x" "c = 128 + y" "2 \<le> x" "x < 32" "y < 64" by simp_all
  then show ?thesis by (simp add: offset_mod)
qed

lemma seq_ok_value_3:
  assumes "utf8_seq_ok [b, c, d]"
  shows "0x800 \<le> code_point [b, c, d] \<and> code_point [b, c, d] < 0x10000
    \<and> (code_point [b, c, d] < 0xD800 \<or> 0xDFFF < code_point [b, c, d])"
proof -
  have r: "224 \<le> b" "b < 240" "128 \<le> c" "c < 192" "128 \<le> d" "d < 192"
    "b = 224 \<longrightarrow> 160 \<le> c" "b = 237 \<longrightarrow> c < 160"
    using assms by (auto simp: utf8_char_width_def is_cont_def second_ok_def split: if_splits)
  define x y z where "x = b - 224" and "y = c - 128" and "z = d - 128"
  with r have "b = 224 + x" "c = 128 + y" "d = 128 + z" "x < 16" "y < 64" "z < 64"
    "x = 0 \<longrightarrow> 32 \<le> y" "x = 13 \<longrightarrow> y < 32" by auto
  then show ?thesis by (cases "x = 0"; cases "x = 13"; cases "x < 13"; simp add: offset_mod)
qed

lemma seq_ok_value_4:
  assumes "utf8_seq_ok [b, c, d, e]"
  shows "0x10000 \<le> code_point [b, c, d, e] \<and> code_point [b, c, d, e] \<le> 0x10FFFF"
proof -
  have r: "240 \<le> b" "b < 245" "128 \<le> c" "c < 192" "128 \<le> d" "d < 192" "128 \<le> e" "e < 192"
    "b = 240 \<longrightarrow> 144 \<le> c" "b = 244 \<longrightarrow> c < 144"
    using assms by (auto simp: utf8_char_width_def is_cont_def second_ok_def split: if_splits)
  define x y z u where "x = b - 240" and "y = c - 128" and "z = d - 128" and "u = e - 128"
  with r have "b = 240 + x" "c = 128 + y" "d = 128 + z" "e = 128 + u" "x < 5" "y < 64" "z < 64"
    "u < 64" "x = 0 \<longrightarrow> 16 \<le> y" "x = 4 \<longrightarrow> y < 16" by auto
  then show ?thesis by (cases "x = 0"; cases "x = 4"; simp add: offset_mod mod_mod_cancel)
qed

text \<open>Every character the splitter accepts is a Rust \<open>char\<close>: its code point is at most
  \<open>0x10FFFF\<close>, is not a surrogate, and is encoded in exactly \<open>char::len_utf8\<close> bytes, so
  no overlong form is accepted.\<close>

lemma utf8_char_scalar:
  assumes "utf8_char ch"
  shows "char_value ch \<le> 0x10FFFF \<and> (char_value ch < 0xD800 \<or> 0xDFFF < char_value ch)
    \<and> len_utf8 (char_value ch) = length ch"
proof -
  obtain bs :: "nat list" where bs: "bs = map of_char ch" by simp
  have ok: "utf8_seq_ok bs" and l: "length ch = length bs" and v: "char_value ch = code_point bs"
    using assms bs by (simp_all add: utf8_char_def char_value_def)
  from ok have "code_point bs \<le> 0x10FFFF \<and> (code_point bs < 0xD800 \<or> 0xDFFF < code_point bs)
    \<and> len_utf8 (code_point bs) = length bs"
  proof (cases bs rule: utf8_seq_ok.cases)
    case (2 b c)
    with ok seq_ok_value_2 [of b c] show ?thesis by (simp add: len_utf8_def)
  next
    case (3 b c d)
    with ok seq_ok_value_3 [of b c d] show ?thesis by (simp add: len_utf8_def)
  next
    case (4 b c d e)
    with ok seq_ok_value_4 [of b c d e] show ?thesis by (simp add: len_utf8_def)
  qed (auto simp: len_utf8_def)
  with l v show ?thesis by simp
qed

declare utf8_chars.simps [simp del]

lemma utf8_char_not_Nil: "utf8_char ch \<Longrightarrow> ch \<noteq> []"
  by (auto simp: utf8_char_def)

lemma utf8_chars_Some:
  "utf8_chars s = Some chs \<Longrightarrow> concat chs = s \<and> list_all utf8_char chs"
proof (induction s arbitrary: chs rule: utf8_chars.induct)
  case (1 s)
  show ?case
  proof (cases "s = []")
    case True
    with "1.prems" show ?thesis by (simp add: utf8_chars.simps)
  next
    case False
    with "1.prems" obtain ch rest t where n: "utf8_next s = Some (ch, rest)"
      and r: "utf8_chars rest = Some t" and chs: "chs = ch # t"
      by (auto simp: utf8_chars.simps [of s] split: option.splits)
    from "1.IH" [OF False n refl r] n chs show ?thesis by (auto dest: utf8_next_Some)
  qed
qed

lemma utf8_chars_concat_append:
  "list_all utf8_char chs \<Longrightarrow> utf8_chars (concat chs @ s) = map_option ((@) chs) (utf8_chars s)"
proof (induction chs)
  case Nil
  then show ?case by (simp add: option.map_ident)
next
  case (Cons ch chs)
  then have ch: "utf8_char ch" and rest: "list_all utf8_char chs" by simp_all
  have "utf8_chars (ch @ concat chs @ s) = map_option (Cons ch) (utf8_chars (concat chs @ s))"
    using ch by (simp add: utf8_chars.simps [of "ch @ concat chs @ s"] utf8_char_next_append
        utf8_char_not_Nil)
  with Cons.IH [OF rest] show ?case by (simp add: option.map_comp comp_def)
qed

lemma utf8_chars_iff:
  "utf8_chars s = Some chs \<longleftrightarrow> concat chs = s \<and> list_all utf8_char chs"
proof
  assume "concat chs = s \<and> list_all utf8_char chs"
  then show "utf8_chars s = Some chs"
    using utf8_chars_concat_append [of chs "[]"] by (simp add: utf8_chars.simps)
qed (rule utf8_chars_Some)

lemma utf8_char_ascii: "utf8_char [c] \<longleftrightarrow> of_char c < (128 :: nat)"
  by (simp add: utf8_char_def)

end
