(* ===== verification/Console.thy ===== *)
theory Console
  imports Utf8
begin

text \<open>
  Line input and key parsing. \<open>get_input\<close> (\<^verbatim>\<open>src/main.rs\<close> lines 6--14) prints a
  prompt, reads one line and returns it trimmed; here its argument is the line
  \<open>read_line\<close> returned (the theory \<open>Stdin\<close> reads it from standard input), and the trim
  is Rust's \<open>str::trim\<close>: the line's UTF-8 characters (theory \<open>Utf8\<close>) with the
  characters for which \<open>char::is_whitespace\<close> holds removed at both ends, Unicode white
  space such as the no-break space included. On ASCII lines it is proved equal to the
  byte-wise trim \<open>trim_ascii_ws\<close>. The key is read by
  \<open>get_input(...).parse::<u8>()\<close> (lines 89--103); \<open>u8::from_str\<close> belongs to Rust's
  standard library, not to this repository, and is modelled after its documented
  behaviour: an optional \<open>+\<close>, then decimal digits, checked left to right, each
  character tested for being a digit before the multiplication by ten is allowed to
  overflow. Inputs of at most two digits take an unchecked fast path in the library;
  both paths are modelled and proved to agree. The four error messages of \<open>main\<close>
  are \<open>report_key_error\<close>.
\<close>

subsection \<open>Reading a line\<close>

text \<open>Rust's \<open>char::is_whitespace\<close>: ASCII space and tab to carriage return, and above
  \<open>0x7F\<close> the Unicode \<open>White_Space\<close> property, written out as its table.\<close>

definition white_space :: "nat \<Rightarrow> bool" where
  "white_space c \<longleftrightarrow>
     (9 \<le> c \<and> c \<le> 13) \<or> c = 32 \<or> c = 0x85 \<or> c = 0xA0 \<or> c = 0x1680
     \<or> (0x2000 \<le> c \<and> c \<le> 0x200A) \<or> c = 0x2028 \<or> c = 0x2029 \<or> c = 0x202F
     \<or> c = 0x205F \<or> c = 0x3000"

definition is_whitespace :: "nat \<Rightarrow> bool" where
  "is_whitespace c \<longleftrightarrow> c = 32 \<or> (9 \<le> c \<and> c \<le> 13) \<or> (0x7F < c \<and> white_space c)"

definition char_is_whitespace :: "string \<Rightarrow> bool" where
  "char_is_whitespace ch \<longleftrightarrow> is_whitespace (char_value ch)"

text \<open>\<open>str::trim_matches\<close>: the slice left when the matching characters are dropped from
  the front and from the back.\<close>

definition trim_matches :: "('a \<Rightarrow> bool) \<Rightarrow> 'a list \<Rightarrow> 'a list" where
  "trim_matches P xs = rev (dropWhile P (rev (dropWhile P xs)))"

text \<open>\<open>str::trim\<close> is \<open>trim_matches(char::is_whitespace)\<close> on the characters of the string:
  its bytes are split into UTF-8 characters and the slice between the white space at both
  ends is returned. A Rust string is valid UTF-8; on bytes that are not, which
  \<open>read_line\<close> never returns (see \<open>Stdin\<close>), the model leaves them unchanged.\<close>

definition trim :: "string \<Rightarrow> string" where
  "trim s = (case utf8_chars s of
               None \<Rightarrow> s
             | Some chars \<Rightarrow> concat (trim_matches char_is_whitespace chars))"

text \<open>\<open>get_input\<close>: the argument is the buffer filled by \<open>read_line\<close>.\<close>

definition get_input :: "string \<Rightarrow> string" where
  "get_input buffer = trim buffer"

text \<open>\<open>str::is_ascii\<close>, and the byte-wise trim the Unicode one is compared with on ASCII lines.\<close>

definition is_ascii :: "string \<Rightarrow> bool" where
  "is_ascii s \<longleftrightarrow> list_all (\<lambda>c. of_char c < (128 :: nat)) s"

definition is_ascii_ws :: "char \<Rightarrow> bool" where
  "is_ascii_ws c \<longleftrightarrow> of_char c \<in> {9, 10, 11, 12, 13, 32 :: nat}"

definition trim_ascii_ws :: "string \<Rightarrow> string" where
  "trim_ascii_ws s = trim_matches is_ascii_ws s"

subsection \<open>Parsing a \<open>u8\<close>\<close>

datatype int_error_kind = Empty | InvalidDigit | PosOverflow | NegOverflow | Zero

text \<open>\<open>char::to_digit(10)\<close>: the code point minus \<open>'0'\<close>, wrapping in \<open>u32\<close>.\<close>

definition to_digit :: "char \<Rightarrow> 32 word option" where
  "to_digit c = (let digit = (of_char c :: 32 word) - 48 in
                 if digit < 10 then Some digit else None)"

definition checked_mul_u8 :: "byte \<Rightarrow> byte \<Rightarrow> byte option" where
  "checked_mul_u8 a b = (if unat a * unat b < 256 then Some (a * b) else None)"

definition checked_add_u8 :: "byte \<Rightarrow> byte \<Rightarrow> byte option" where
  "checked_add_u8 a b = (if unat a + unat b < 256 then Some (a + b) else None)"

text \<open>The checked digit loop: \<open>mul = result.checked_mul(10)\<close>, then the digit test,
  then the overflow test of \<open>mul\<close> and of the addition.\<close>

fun parse_digits :: "byte \<Rightarrow> string \<Rightarrow> int_error_kind + byte" where
  "parse_digits result [] = Inr result"
| "parse_digits result (c # digits) =
     (let mul = checked_mul_u8 result 10 in
      case to_digit c of
        None \<Rightarrow> Inl InvalidDigit
      | Some x \<Rightarrow>
          (case mul of
             None \<Rightarrow> Inl PosOverflow
           | Some r \<Rightarrow>
               (case checked_add_u8 r (ucast x) of
                  None \<Rightarrow> Inl PosOverflow
                | Some r' \<Rightarrow> parse_digits r' digits)))"

text \<open>The unchecked loop the library runs when the input cannot overflow.\<close>

fun parse_digits_unchecked :: "byte \<Rightarrow> string \<Rightarrow> int_error_kind + byte" where
  "parse_digits_unchecked result [] = Inr result"
| "parse_digits_unchecked result (c # digits) =
     (case to_digit c of
        None \<Rightarrow> Inl InvalidDigit
      | Some x \<Rightarrow> parse_digits_unchecked (result * 10 + ucast x) digits)"

definition can_not_overflow_u8 :: "string \<Rightarrow> bool" where
  "can_not_overflow_u8 digits \<longleftrightarrow> length digits \<le> 2"

definition parse_u8_digits :: "string \<Rightarrow> int_error_kind + byte" where
  "parse_u8_digits digits =
     (if can_not_overflow_u8 digits then parse_digits_unchecked 0 digits
      else parse_digits 0 digits)"

fun parse_u8 :: "string \<Rightarrow> int_error_kind + byte" where
  "parse_u8 [] = Inl Empty"
| "parse_u8 [c] =
     (if c = CHR ''+'' \<or> c = CHR ''-'' then Inl InvalidDigit else parse_u8_digits [c])"
| "parse_u8 (c # src) =
     (if c = CHR ''+'' then parse_u8_digits src else parse_u8_digits (c # src))"

subsection \<open>The key prompt of \<open>main\<close>\<close>

definition read_key :: "string \<Rightarrow> int_error_kind + byte" where
  "read_key line = parse_u8 (get_input line)"

datatype key_report =
  KeyMustNotBeEmpty | EnterValidNumber | NumberOutOfRange | ErrorReadingKey

fun report_key_error :: "int_error_kind \<Rightarrow> key_report" where
  "report_key_error Empty = KeyMustNotBeEmpty"
| "report_key_error InvalidDigit = EnterValidNumber"
| "report_key_error PosOverflow = NumberOutOfRange"
| "report_key_error _ = ErrorReadingKey"

subsection \<open>Decimal numerals, the reference the parser is checked against\<close>

definition is_digit :: "char \<Rightarrow> bool" where
  "is_digit c \<longleftrightarrow> 48 \<le> (of_char c :: nat) \<and> (of_char c :: nat) < 58"

definition digit_value :: "char \<Rightarrow> nat" where
  "digit_value c = of_char c - 48"

definition dec_value_from :: "nat \<Rightarrow> string \<Rightarrow> nat" where
  "dec_value_from n ds = foldl (\<lambda>v c. 10 * v + digit_value c) n ds"

fun dec_string :: "nat \<Rightarrow> string" where
  "dec_string n =
     (if n < 10 then [char_of (48 + n)] else dec_string (n div 10) @ [char_of (48 + n mod 10)])"

subsection \<open>Digits\<close>

lemma unat_of_char_word: "unat (of_char c :: 32 word) = of_char c"
proof -
  have lt: "of_char c < (2 ^ LENGTH(32) :: nat)"
    using nat_of_char_less_256 [of c] by (simp del: nat_of_char_less_256)
  have "(of_char c :: 32 word) = word_of_nat (of_char c)"
    by (simp only: of_nat_of_char)
  then show ?thesis using lt by (simp only: unat_of_nat mod_less)
qed

lemma unat_to_digit_arg:
  "unat ((of_char c :: 32 word) - 48) =
     (if (48::nat) \<le> of_char c then of_char c - 48 else of_char c + 2 ^ 32 - 48)"
  by (simp add: unat_sub_if_size unat_of_char_word word_size)

lemma to_digit_Some_iff:
  "to_digit c = Some x \<longleftrightarrow> is_digit c \<and> unat x = digit_value c"
  by (auto simp: to_digit_def Let_def word_less_nat_alt unat_to_digit_arg word_unat_eq_iff
      is_digit_def digit_value_def split: if_splits)

lemma to_digit_None_iff: "to_digit c = None \<longleftrightarrow> \<not> is_digit c"
  by (cases "to_digit c") (auto simp: to_digit_Some_iff is_digit_def,
      auto simp: to_digit_def Let_def word_less_nat_alt unat_to_digit_arg digit_value_def
      split: if_splits)

lemma digit_value_lt: "is_digit c \<Longrightarrow> digit_value c < 10"
  unfolding is_digit_def digit_value_def by linarith

lemma unat_ucast_digit:
  "to_digit c = Some x \<Longrightarrow> unat (ucast x :: byte) = digit_value c"
  by (auto simp: to_digit_Some_iff unsigned_ucast_eq take_bit_eq_mod dest: digit_value_lt)

lemma checked_mul_u8_10:
  "checked_mul_u8 a 10 = (if unat a * 10 < 256 then Some (a * 10) else None)"
  by (simp add: checked_mul_u8_def)

lemma unat_mul_10: "unat a * 10 < 256 \<Longrightarrow> unat (a * 10 :: byte) = unat a * 10"
  by (simp add: unat_word_ariths)

lemma unat_add_small: "unat a + unat b < 256 \<Longrightarrow> unat (a + b :: byte) = unat a + unat b"
  by (simp add: unat_word_ariths)

lemma dec_value_from_mono: "n \<le> dec_value_from n ds"
proof (induction ds arbitrary: n)
  case Nil
  then show ?case by (simp add: dec_value_from_def)
next
  case (Cons c ds)
  have "n \<le> 10 * n + digit_value c" by simp
  also have "\<dots> \<le> dec_value_from (10 * n + digit_value c) ds" by (rule Cons.IH)
  finally show ?case by (simp add: dec_value_from_def)
qed

lemma dec_value_from_Cons:
  "dec_value_from n (c # ds) = dec_value_from (10 * n + digit_value c) ds"
  by (simp add: dec_value_from_def)

subsection \<open>The digit loops\<close>

lemma parse_digits_digits:
  "list_all is_digit ds \<Longrightarrow>
   parse_digits acc ds =
     (if dec_value_from (unat acc) ds < 256 then Inr (of_nat (dec_value_from (unat acc) ds))
      else Inl PosOverflow)"
proof (induction ds arbitrary: acc)
  case Nil
  have "unat acc < 256" using unsigned_less [of acc] by simp
  then show ?case by (simp add: dec_value_from_def)
next
  case (Cons c ds)
  then have dig: "is_digit c" and rest: "list_all is_digit ds" by simp_all
  from dig obtain x where x: "to_digit c = Some x"
    by (cases "to_digit c") (simp_all add: to_digit_None_iff)
  have ux: "unat (ucast x :: byte) = digit_value c" using x by (rule unat_ucast_digit)
  let ?v = "dec_value_from (10 * unat acc + digit_value c) ds"
  have ge: "10 * unat acc + digit_value c \<le> ?v" by (rule dec_value_from_mono)
  show ?case
  proof (cases "unat acc * 10 < 256")
    case False
    with ge show ?thesis by (simp add: x checked_mul_u8_10 dec_value_from_Cons)
  next
    case mul: True
    show ?thesis
    proof (cases "unat acc * 10 + digit_value c < 256")
      case False
      with mul ge show ?thesis
        by (simp add: x checked_mul_u8_10 checked_add_u8_def unat_mul_10 ux dec_value_from_Cons)
    next
      case True
      then have "unat (acc * 10 + ucast x) = 10 * unat acc + digit_value c"
        using mul by (simp add: unat_add_small unat_mul_10 ux)
      with True mul Cons.IH [OF rest, of "acc * 10 + ucast x"] show ?thesis
        by (simp add: x checked_mul_u8_10 checked_add_u8_def unat_mul_10 ux dec_value_from_Cons)
    qed
  qed
qed

lemma parse_digits_unchecked_eq:
  "(unat acc + 1) * 10 ^ length ds \<le> 256 \<Longrightarrow> parse_digits_unchecked acc ds = parse_digits acc ds"
proof (induction ds arbitrary: acc)
  case Nil
  then show ?case by simp
next
  case (Cons c ds)
  show ?case
  proof (cases "to_digit c")
    case None
    then show ?thesis by (simp add: Let_def)
  next
    case (Some x)
    have p: "(0::nat) < 10 ^ length ds" by simp
    have b: "(unat acc + 1) * 10 * 10 ^ length ds \<le> 256"
      using Cons.prems by (metis length_Cons power_Suc mult.assoc)
    have "(unat acc + 1) * 10 * 1 \<le> (unat acc + 1) * 10 * 10 ^ length ds"
      using p by (intro mult_le_mono2) simp
    from this b have "(unat acc + 1) * 10 * 1 \<le> 256" by (rule le_trans)
    then have m: "unat acc * 10 + 10 \<le> 256" by simp
    have d: "digit_value c < 10" using Some by (auto simp: to_digit_Some_iff dest: digit_value_lt)
    have ux: "unat (ucast x :: byte) = digit_value c" using Some by (rule unat_ucast_digit)
    have u: "unat (acc * 10 + ucast x) = unat acc * 10 + digit_value c"
      using m d by (simp add: unat_add_small unat_mul_10 ux)
    have "unat (acc * 10 + ucast x) + 1 \<le> (unat acc + 1) * 10"
      using d by (simp add: u)
    then have "(unat (acc * 10 + ucast x) + 1) * 10 ^ length ds \<le> (unat acc + 1) * 10 * 10 ^ length ds"
      by (rule mult_le_mono1)
    with b have "parse_digits_unchecked (acc * 10 + ucast x) ds = parse_digits (acc * 10 + ucast x) ds"
      by (intro Cons.IH) linarith
    with m d show ?thesis
      by (simp add: Some checked_mul_u8_10 checked_add_u8_def unat_mul_10 ux)
  qed
qed

subsection \<open>The sign and the numeral printer\<close>

lemma parse_u8_digits_eq: "parse_u8_digits ds = parse_digits 0 ds"
proof (cases "can_not_overflow_u8 ds")
  case True
  then have "(unat (0::byte) + 1) * 10 ^ length ds \<le> 256"
    by (auto simp: can_not_overflow_u8_def le_Suc_eq numeral_2_eq_2)
  with True show ?thesis by (simp add: parse_u8_digits_def parse_digits_unchecked_eq)
next
  case False
  then show ?thesis by (simp add: parse_u8_digits_def)
qed

lemma parse_u8_eq:
  "parse_u8 s =
     (if s = [] then Inl Empty
      else if s = ''+'' \<or> s = ''-'' then Inl InvalidDigit
      else if hd s = CHR ''+'' then parse_digits 0 (tl s)
      else parse_digits 0 s)"
  by (cases s rule: parse_u8.cases) (auto simp: parse_u8_digits_eq)

lemma parse_digits_error:
  "parse_digits acc ds = Inl e \<Longrightarrow> e = InvalidDigit \<or> e = PosOverflow"
  by (induction acc ds rule: parse_digits.induct)
     (auto simp: Let_def split: option.splits)

lemma is_digit_not_sign: "is_digit c \<Longrightarrow> c \<noteq> CHR ''+'' \<and> c \<noteq> CHR ''-''"
  by (auto simp: is_digit_def)

lemma digit_value_char_of: "(d::nat) < 10 \<Longrightarrow> digit_value (char_of (48 + d)) = d"
  by (simp add: digit_value_def)

lemma is_digit_char_of: "(d::nat) < 10 \<Longrightarrow> is_digit (char_of (48 + d))"
  by (simp add: is_digit_def)

declare dec_string.simps [simp del]

lemma dec_string_props:
  "dec_string n \<noteq> [] \<and> list_all is_digit (dec_string n) \<and> dec_value_from 0 (dec_string n) = n"
proof (induction n rule: dec_string.induct)
  case (1 n)
  show ?case
  proof (cases "n < 10")
    case True
    then show ?thesis
      by (simp add: dec_string.simps [of n] dec_value_from_def digit_value_char_of is_digit_char_of)
  next
    case False
    with "1.IH" have "dec_string (n div 10) \<noteq> [] \<and> list_all is_digit (dec_string (n div 10))
      \<and> dec_value_from 0 (dec_string (n div 10)) = n div 10" by simp
    with False show ?thesis
      by (simp add: dec_string.simps [of n] dec_value_from_def digit_value_char_of is_digit_char_of)
  qed
qed

subsection \<open>Trimming\<close>

lemma dropWhile_frame:
  "list_all P pre \<Longrightarrow> (s = [] \<or> \<not> P (hd s)) \<Longrightarrow> dropWhile P (pre @ s) = s"
proof (induction pre)
  case Nil
  then show ?case by (cases s) simp_all
next
  case (Cons c pre)
  then show ?case by simp
qed

lemma trim_matches_frame:
  assumes "list_all P pre" "list_all P post"
    and "s \<noteq> []" "\<not> P (hd s)" "\<not> P (last s)"
  shows "trim_matches P (pre @ s @ post) = s"
proof -
  have "dropWhile P (pre @ s @ post) = s @ post"
    using assms(1,3,4) by (simp add: dropWhile_frame)
  moreover have "dropWhile P (rev post @ rev s) = rev s"
    using assms(2,3,5) by (simp add: dropWhile_frame hd_rev)
  ultimately show ?thesis by (simp add: trim_matches_def)
qed

lemma last_dropWhile_eq: "dropWhile P xs \<noteq> [] \<Longrightarrow> last (dropWhile P xs) = last xs"
  by (induction xs) auto

lemma trim_matches_ends:
  assumes "trim_matches P xs \<noteq> []"
  shows "\<not> P (hd (trim_matches P xs)) \<and> \<not> P (last (trim_matches P xs))"
proof -
  let ?t = "dropWhile P xs"
  let ?u = "dropWhile P (rev ?t)"
  have u: "?u \<noteq> []" using assms by (simp add: trim_matches_def)
  have t: "?t \<noteq> []"
  proof
    assume "?t = []"
    with u show False by simp
  qed
  have "\<not> P (hd ?u)" using u by (rule hd_dropWhile)
  moreover have "\<not> P (hd ?t)" using t by (rule hd_dropWhile)
  moreover have "last ?u = hd ?t" using u t by (simp add: last_dropWhile_eq last_rev)
  ultimately show ?thesis using u by (simp add: trim_matches_def hd_rev last_rev)
qed

lemma trim_matches_idem: "trim_matches P (trim_matches P xs) = trim_matches P xs"
proof (cases "trim_matches P xs = []")
  case True
  have "trim_matches P [] = []" by (simp add: trim_matches_def)
  with True show ?thesis by simp
next
  case False
  have "trim_matches P ([] @ trim_matches P xs @ []) = trim_matches P xs"
    using False trim_matches_ends [OF False] by (intro trim_matches_frame) simp_all
  then show ?thesis by simp
qed

lemma trim_matches_subset: "set (trim_matches P xs) \<subseteq> set xs"
proof -
  have d: "\<And>ys. set (dropWhile P ys) \<subseteq> set ys" by (auto dest: set_dropWhileD)
  show ?thesis unfolding trim_matches_def using d [of "rev (dropWhile P xs)"] d [of xs] by auto
qed

lemma trim_matches_split:
  "\<exists>pre post. xs = pre @ trim_matches P xs @ post \<and> list_all P pre \<and> list_all P post"
proof -
  let ?d = "dropWhile P xs"
  have a: "xs = takeWhile P xs @ ?d" by simp
  have "rev ?d = takeWhile P (rev ?d) @ dropWhile P (rev ?d)" by simp
  then have b: "?d = rev (dropWhile P (rev ?d)) @ rev (takeWhile P (rev ?d))"
    by (metis rev_append rev_rev_ident)
  have "list_all P (takeWhile P xs)" "list_all P (rev (takeWhile P (rev ?d)))"
    by (auto simp: list_all_iff dest: set_takeWhileD)
  with a b show ?thesis unfolding trim_matches_def by (metis append.assoc)
qed

lemma trim_matches_map:
  "trim_matches P (map f xs) = map f (trim_matches (P \<circ> f) xs)"
  by (simp add: trim_matches_def dropWhile_map rev_map)

lemma trim_matches_cong:
  "(\<And>x. x \<in> set xs \<Longrightarrow> P x = Q x) \<Longrightarrow> trim_matches P xs = trim_matches Q xs"
proof -
  assume eq: "\<And>x. x \<in> set xs \<Longrightarrow> P x = Q x"
  have d: "dropWhile P xs = dropWhile Q xs" using eq by (rule dropWhile_cong [OF refl])
  have "\<And>x. x \<in> set (rev (dropWhile Q xs)) \<Longrightarrow> P x = Q x"
    using eq by (auto dest: set_dropWhileD)
  then have "dropWhile P (rev (dropWhile Q xs)) = dropWhile Q (rev (dropWhile Q xs))"
    by (rule dropWhile_cong [OF refl])
  with d show ?thesis by (simp add: trim_matches_def)
qed

lemma utf8_chars_ascii: "is_ascii s \<Longrightarrow> utf8_chars s = Some (map (\<lambda>c. [c]) s)"
  by (simp add: utf8_chars_iff is_ascii_def list_all_iff utf8_char_ascii concat_map_singleton)

lemma char_is_whitespace_ascii:
  "of_char c < (128 :: nat) \<Longrightarrow> char_is_whitespace [c] \<longleftrightarrow> is_ascii_ws c"
  by (auto simp: char_is_whitespace_def char_value_def is_whitespace_def is_ascii_ws_def)

lemma trim_ascii_eq: "is_ascii s \<Longrightarrow> trim s = trim_ascii_ws s"
proof -
  assume a: "is_ascii s"
  have "trim_matches (char_is_whitespace \<circ> (\<lambda>c. [c])) s = trim_matches is_ascii_ws s"
    using a by (intro trim_matches_cong) (simp add: is_ascii_def list_all_iff char_is_whitespace_ascii)
  with a show ?thesis
    by (simp add: trim_def utf8_chars_ascii trim_matches_map trim_ascii_ws_def concat_map_singleton)
qed

lemma get_input_ascii: "is_ascii s \<Longrightarrow> get_input s = trim_matches is_ascii_ws s"
  by (simp add: get_input_def trim_ascii_eq trim_ascii_ws_def)

lemmas get_input_ascii_simps = get_input_ascii is_ascii_def is_ascii_ws_def trim_matches_def

lemma get_input_utf8:
  assumes "utf8_chars buffer = Some chars"
  shows "get_input buffer = concat (trim_matches char_is_whitespace chars)
    \<and> utf8_chars (get_input buffer) = Some (trim_matches char_is_whitespace chars)"
proof -
  have "list_all utf8_char chars" using assms by (simp add: utf8_chars_iff)
  then have "list_all utf8_char (trim_matches char_is_whitespace chars)"
    using trim_matches_subset [of char_is_whitespace chars] by (auto simp: list_all_iff)
  then have d: "utf8_chars (concat (trim_matches char_is_whitespace chars))
      = Some (trim_matches char_is_whitespace chars)" by (simp add: utf8_chars_iff)
  have g: "get_input buffer = concat (trim_matches char_is_whitespace chars)"
    using assms by (simp add: get_input_def trim_def)
  from g d show ?thesis by simp
qed

lemma is_digit_not_ws: "is_digit c \<Longrightarrow> \<not> char_is_whitespace [c]"
  by (simp add: is_digit_def char_is_whitespace_def char_value_def is_whitespace_def)

lemma is_digit_utf8_char: "is_digit c \<Longrightarrow> utf8_char [c]"
  by (simp add: is_digit_def utf8_char_ascii)

subsection \<open>The key prompt\<close>

text \<open>C25: a line returned by get_input that is not empty starts and ends with a
  character that is not white space, and trimming it again changes nothing.\<close>

theorem get_input_trimmed:
  assumes "utf8_chars buffer \<noteq> None" and "get_input buffer \<noteq> []"
  shows "\<exists>chars. utf8_chars (get_input buffer) = Some chars
    \<and> \<not> char_is_whitespace (hd chars) \<and> \<not> char_is_whitespace (last chars)
    \<and> get_input (get_input buffer) = get_input buffer"
proof -
  obtain cs where cs: "utf8_chars buffer = Some cs" using assms(1) by auto
  let ?t = "trim_matches char_is_whitespace cs"
  have g: "get_input buffer = concat ?t" using cs by (simp add: get_input_def trim_def)
  have "list_all utf8_char cs" using cs by (simp add: utf8_chars_iff)
  then have ok: "list_all utf8_char ?t"
    using trim_matches_subset [of char_is_whitespace cs] by (auto simp: list_all_iff)
  then have d: "utf8_chars (get_input buffer) = Some ?t" by (simp add: g utf8_chars_iff)
  have "?t \<noteq> []" using assms(2) g by auto
  then have e: "\<not> char_is_whitespace (hd ?t) \<and> \<not> char_is_whitespace (last ?t)"
    by (rule trim_matches_ends)
  have "utf8_chars (concat ?t) = Some ?t" using ok by (simp add: utf8_chars_iff)
  then have "trim (concat ?t) = concat ?t" by (simp add: trim_def trim_matches_idem)
  then have "get_input (get_input buffer) = get_input buffer" using g by (simp only: get_input_def)
  with d e show ?thesis by blast
qed

theorem get_input_trimmed_witness:
  "utf8_chars '' a b '' \<noteq> None \<and> get_input '' a b '' \<noteq> []
   \<and> (\<exists>chars. utf8_chars (get_input '' a b '') = Some chars
      \<and> \<not> char_is_whitespace (hd chars) \<and> \<not> char_is_whitespace (last chars)
      \<and> get_input (get_input '' a b '') = get_input '' a b '')"
proof -
  have h1: "utf8_chars '' a b '' \<noteq> None" by code_simp
  have h2: "get_input '' a b '' \<noteq> []" by code_simp
  show ?thesis using h1 h2 get_input_trimmed [OF h1 h2] by blast
qed

lemma take_1_ends:
  assumes "xs \<noteq> []"
  shows "take (Suc 0) xs = [hd xs] \<and> take (Suc 0) (rev xs) = [last xs]"
proof
  show "take (Suc 0) xs = [hd xs]" using assms by (cases xs) simp_all
  show "take (Suc 0) (rev xs) = [last xs]" using assms by (cases xs rule: rev_cases) simp_all
qed

text \<open>C26: get_input returns the slice of its buffer that str::trim keeps: the buffer's
  characters are the returned ones with white-space characters before and after them,
  the first and the last returned character are not white space (so all of the
  surrounding white space is removed), and the returned string splits back into exactly
  those characters.\<close>

theorem get_input_slice:
  assumes "utf8_chars buffer = Some chars"
  shows "\<exists>pre t post. chars = pre @ t @ post
    \<and> list_all char_is_whitespace pre \<and> list_all char_is_whitespace post
    \<and> list_all (\<lambda>c. \<not> char_is_whitespace c) (take 1 t @ take 1 (rev t))
    \<and> get_input buffer = concat t \<and> utf8_chars (get_input buffer) = Some t"
proof -
  let ?t = "trim_matches char_is_whitespace chars"
  have e: "list_all (\<lambda>c. \<not> char_is_whitespace c) (take 1 ?t @ take 1 (rev ?t))"
  proof (cases "?t = []")
    case False
    then have "\<not> char_is_whitespace (hd ?t) \<and> \<not> char_is_whitespace (last ?t)"
      by (rule trim_matches_ends)
    with False show ?thesis by (simp add: take_1_ends hd_rev)
  qed simp
  obtain pre post where sp: "chars = pre @ ?t @ post" "list_all char_is_whitespace pre"
    "list_all char_is_whitespace post" using trim_matches_split by blast
  have g: "get_input buffer = concat ?t" and "utf8_chars (get_input buffer) = Some ?t"
    using get_input_utf8 [OF assms] by blast+
  with sp e show ?thesis by blast
qed

theorem get_input_slice_witness:
  "utf8_chars ('' x'' @ map char_of [0xC2, 0xA0 :: nat]) = Some [[CHR '' ''], [CHR ''x''], map char_of [0xC2, 0xA0 :: nat]]
   \<and> (\<exists>pre t post. [[CHR '' ''], [CHR ''x''], map char_of [0xC2, 0xA0 :: nat]] = pre @ t @ post
      \<and> list_all char_is_whitespace pre \<and> list_all char_is_whitespace post
      \<and> list_all (\<lambda>c. \<not> char_is_whitespace c) (take 1 t @ take 1 (rev t))
      \<and> get_input ('' x'' @ map char_of [0xC2, 0xA0 :: nat]) = concat t
      \<and> utf8_chars (get_input ('' x'' @ map char_of [0xC2, 0xA0 :: nat])) = Some t)"
proof -
  have h: "utf8_chars ('' x'' @ map char_of [0xC2, 0xA0 :: nat])
      = Some [[CHR '' ''], [CHR ''x''], map char_of [0xC2, 0xA0 :: nat]]" by code_simp
  show ?thesis using h get_input_slice [OF h] by blast
qed

lemma parse_u8_sign_digits:
  assumes "sign = [] \<or> sign = ''+''" and "ds \<noteq> []" and "list_all is_digit ds"
  shows "parse_u8 (sign @ ds) = parse_digits 0 ds"
proof -
  obtain c rest where ds: "ds = c # rest" using assms(2) by (cases ds) auto
  have "c \<noteq> CHR ''+'' \<and> c \<noteq> CHR ''-''" using assms(3) ds by (simp add: is_digit_not_sign)
  then show ?thesis using assms(1) ds by (auto simp: parse_u8_eq)
qed

text \<open>C22: when the trimmed key line is an optional plus sign followed by decimal digits, the key read is the decimal value if it is below 256 and the out-of-range error otherwise.\<close>

theorem read_key_decimal:
  assumes "get_input line = sign @ ds" and "sign = [] \<or> sign = ''+''"
    and "ds \<noteq> []" and "list_all is_digit ds"
  shows "read_key line =
    (if dec_value_from 0 ds < 256 then Inr (of_nat (dec_value_from 0 ds)) else Inl PosOverflow)"
  using assms by (simp add: read_key_def parse_u8_sign_digits parse_digits_digits)

theorem read_key_decimal_witness:
  "get_input '' +200 '' = ''+'' @ ''200'' \<and> read_key '' +200 '' = Inr 200"
proof -
  have h1: "get_input '' +200 '' = ''+'' @ ''200''"
    by (simp add: get_input_ascii_simps)
  have h2: "list_all is_digit ''200''" by (simp add: is_digit_def)
  have "read_key '' +200 '' = (if dec_value_from 0 ''200'' < 256
      then Inr (of_nat (dec_value_from 0 ''200'')) else Inl PosOverflow)"
    using read_key_decimal [OF h1 _ _ h2] by simp
  then show ?thesis using h1 by (simp add: dec_value_from_def digit_value_def)
qed

text \<open>C23: every key 0..255 written in decimal and surrounded by any white-space
  characters, Unicode ones such as the no-break space included, and the new line read_line
  keeps, is read back as that key.\<close>

theorem read_key_roundtrip:
  assumes "list_all (\<lambda>ch. utf8_char ch \<and> char_is_whitespace ch) pre"
    and "list_all (\<lambda>ch. utf8_char ch \<and> char_is_whitespace ch) post"
  shows "read_key (concat pre @ dec_string (unat k) @ concat post) = Inr k"
proof -
  let ?ds = "dec_string (unat k)"
  have p: "?ds \<noteq> [] \<and> list_all is_digit ?ds \<and> dec_value_from 0 ?ds = unat k"
    by (rule dec_string_props)
  let ?cs = "pre @ map (\<lambda>c. [c]) ?ds @ post"
  have "list_all utf8_char ?cs"
    using assms p by (auto simp: list_all_iff is_digit_utf8_char)
  then have cs: "utf8_chars (concat pre @ ?ds @ concat post) = Some ?cs"
    by (simp add: utf8_chars_iff)
  have ends: "\<not> char_is_whitespace (hd (map (\<lambda>c. [c]) ?ds))
    \<and> \<not> char_is_whitespace (last (map (\<lambda>c. [c]) ?ds))"
    using p by (auto simp: list_all_iff is_digit_not_ws hd_map last_map)
  have "trim_matches char_is_whitespace ?cs = map (\<lambda>c. [c]) ?ds"
    using assms p ends by (intro trim_matches_frame) (simp_all add: list_all_iff)
  then have g: "get_input (concat pre @ ?ds @ concat post) = [] @ ?ds"
    using cs by (simp add: get_input_def trim_def)
  have "unat k < 256" using unsigned_less [of k] by simp
  moreover have "parse_u8 ([] @ ?ds) = parse_digits 0 ?ds"
    using p by (intro parse_u8_sign_digits) simp_all
  ultimately show ?thesis using g p by (simp add: read_key_def parse_digits_digits)
qed

theorem read_key_roundtrip_witness:
  "list_all (\<lambda>ch. utf8_char ch \<and> char_is_whitespace ch) [map char_of [0xC2, 0xA0 :: nat], '' '']
   \<and> list_all (\<lambda>ch. utf8_char ch \<and> char_is_whitespace ch) [[char_of (10::nat)]]
   \<and> read_key (concat [map char_of [0xC2, 0xA0 :: nat], '' ''] @ dec_string (unat (42::byte))
       @ concat [[char_of (10::nat)]]) = Inr 42"
proof -
  have h1: "list_all (\<lambda>ch. utf8_char ch \<and> char_is_whitespace ch)
      [map char_of [0xC2, 0xA0 :: nat], '' '']" by code_simp
  have h2: "list_all (\<lambda>ch. utf8_char ch \<and> char_is_whitespace ch) [[char_of (10::nat)]]"
    by code_simp
  show ?thesis using h1 h2 read_key_roundtrip [OF h1 h2, of 42] by simp
qed

text \<open>C24: the message main prints for a failed key read: "The key must not be empty"
  exactly when the trimmed line is empty, "The number must be in the range of 0 to 255"
  on an overflow, "Enter a valid number" otherwise; the fallback "Error reading the key"
  is never printed.\<close>

theorem read_key_error_kinds:
  assumes "read_key line = Inl e"
  shows "report_key_error e = (if get_input line = [] then KeyMustNotBeEmpty
      else if e = PosOverflow then NumberOutOfRange else EnterValidNumber)"
proof -
  have "e = Empty \<and> get_input line = []
     \<or> (e = InvalidDigit \<or> e = PosOverflow) \<and> get_input line \<noteq> []"
    using assms by (auto simp: read_key_def parse_u8_eq split: if_splits dest: parse_digits_error)
  then show ?thesis by auto
qed

theorem read_key_error_kinds_witness:
  "read_key ''xx'' = Inl InvalidDigit \<and> report_key_error InvalidDigit = EnterValidNumber"
proof -
  have h: "read_key ''xx'' = Inl InvalidDigit" by code_simp
  have g: "get_input ''xx'' = ''xx''" by code_simp
  show ?thesis using h read_key_error_kinds [OF h] g by simp
qed

end
