(* ===== verification/File_Data.thy ===== *)
theory File_Data
  imports Prelude
begin

text \<open>
  The access-control state of \<^verbatim>\<open>src/main.rs\<close>: \<open>struct FileData\<close> (lines 25--29) with
  its three \<open>HashMap\<close>s as partial maps, the methods \<open>new\<close>, \<open>add_encrypted_file\<close>,
  \<open>add_banned_ip\<close> and \<open>change_ip_attempts\<close> (lines 31--64) as functions returning
  the updated record, and the two conditions \<open>main\<close> tests against it: the ban test
  (lines 82--84) and the wrong-key test (lines 110--111). The attempt counter is a
  \<open>u8\<close>, so \<open>*value += 1\<close> is the wrapping addition of \<open>8 word\<close> (the release-build
  semantics; the session theory shows the counter never gets near the wrap, so the
  overflow panic of a debug build is unreachable too). The composite key
  \<open>vec![file_name, ip]\<close> is a two-element list, as in the source.
  The lemmas give each method's effect on every field, the exact count and ban after
  any number of failures (wrap-around included), and the monotonicity facts the
  session invariants use.
\<close>

record file_data =
  encrypted_file :: "string \<rightharpoonup> byte"
  banned_ip :: "string \<rightharpoonup> string list"
  ip_attempts :: "string list \<rightharpoonup> byte"

definition file_data_new :: file_data where
  "file_data_new = \<lparr>encrypted_file = Map.empty, banned_ip = Map.empty, ip_attempts = Map.empty\<rparr>"

definition add_encrypted_file :: "file_data \<Rightarrow> string \<Rightarrow> byte \<Rightarrow> file_data" where
  "add_encrypted_file self file_name key =
     self\<lparr>encrypted_file := (encrypted_file self)(file_name \<mapsto> key)\<rparr>"

text \<open>\<open>entry(file_name).or_insert_with(Vec::new).push(ip)\<close>.\<close>

definition add_banned_ip :: "file_data \<Rightarrow> string \<Rightarrow> string \<Rightarrow> file_data" where
  "add_banned_ip self file_name ip =
     (let ips = (case banned_ip self file_name of None \<Rightarrow> [] | Some v \<Rightarrow> v)
      in self\<lparr>banned_ip := (banned_ip self)(file_name \<mapsto> ips @ [ip])\<rparr>)"

text \<open>\<open>entry(key).and_modify(|value| *value += 1).or_insert(1)\<close>, then the re-read of the
  counter and the ban on reaching exactly 3.\<close>

definition change_ip_attempts :: "file_data \<Rightarrow> string \<Rightarrow> string \<Rightarrow> file_data" where
  "change_ip_attempts self file_name ip =
     (let key = [file_name, ip];
          self' = self\<lparr>ip_attempts := (ip_attempts self)(key \<mapsto>
                    (case ip_attempts self key of Some value \<Rightarrow> value + 1 | None \<Rightarrow> 1))\<rparr>
      in case ip_attempts self' key of
           Some attempts \<Rightarrow> if attempts = 3 then add_banned_ip self' file_name ip else self'
         | None \<Rightarrow> self')"

text \<open>The ban test of \<open>main\<close> (lines 82--84); \<open>unwrap\<close> follows a \<open>contains_key\<close>.\<close>

definition access_denied :: "file_data \<Rightarrow> string \<Rightarrow> string \<Rightarrow> bool" where
  "access_denied fd input_file_name user_ip \<longleftrightarrow>
     contains_key (encrypted_file fd) input_file_name
     \<and> contains_key (banned_ip fd) input_file_name
     \<and> user_ip \<in> set (the (banned_ip fd input_file_name))"

text \<open>The wrong-key test of \<open>main\<close> (lines 110--111).\<close>

definition incorrect_key :: "file_data \<Rightarrow> string \<Rightarrow> byte \<Rightarrow> bool" where
  "incorrect_key fd input_file_name key \<longleftrightarrow>
     contains_key (encrypted_file fd) input_file_name
     \<and> the (encrypted_file fd input_file_name) \<noteq> key"

text \<open>Reading aids: the ban list of a file (empty when absent) and the counter as a number.\<close>

definition banned_list :: "file_data \<Rightarrow> string \<Rightarrow> string list" where
  "banned_list fd f = (case banned_ip fd f of None \<Rightarrow> [] | Some l \<Rightarrow> l)"

definition attempts_of :: "file_data \<Rightarrow> string \<Rightarrow> string \<Rightarrow> nat" where
  "attempts_of fd f ip = (case ip_attempts fd [f, ip] of None \<Rightarrow> 0 | Some v \<Rightarrow> unat v)"

definition next_count :: "byte option \<Rightarrow> byte" where
  "next_count c = (case c of Some value \<Rightarrow> value + 1 | None \<Rightarrow> 1)"

text \<open>\<open>n\<close> consecutive failures of one address on one file.\<close>

abbreviation fail_n :: "nat \<Rightarrow> file_data \<Rightarrow> string \<Rightarrow> string \<Rightarrow> file_data" where
  "fail_n n fd f ip \<equiv> ((\<lambda>x. change_ip_attempts x f ip) ^^ n) fd"

text \<open>A state with \<open>out.bin\<close> registered under key 7, for the witnesses.\<close>

definition demo_registered :: file_data where
  "demo_registered = add_encrypted_file file_data_new ''out.bin'' 7"

declare file_data_new_def [guard_defs] add_encrypted_file_def [guard_defs]
  add_banned_ip_def [guard_defs] change_ip_attempts_def [guard_defs]
  access_denied_def [guard_defs] incorrect_key_def [guard_defs]

subsection \<open>Effect of each method, field by field\<close>

lemma add_banned_ip_fields [simp]:
  "encrypted_file (add_banned_ip fd f ip) = encrypted_file fd"
  "ip_attempts (add_banned_ip fd f ip) = ip_attempts fd"
  "banned_ip (add_banned_ip fd f ip) = (banned_ip fd)(f \<mapsto> banned_list fd f @ [ip])"
  by (simp_all add: add_banned_ip_def banned_list_def)

lemma change_ip_attempts_fields [simp]:
  "encrypted_file (change_ip_attempts fd f ip) = encrypted_file fd"
  "ip_attempts (change_ip_attempts fd f ip) =
     (ip_attempts fd)([f, ip] \<mapsto> next_count (ip_attempts fd [f, ip]))"
  "banned_ip (change_ip_attempts fd f ip) =
     (if next_count (ip_attempts fd [f, ip]) = 3
      then (banned_ip fd)(f \<mapsto> banned_list fd f @ [ip]) else banned_ip fd)"
  by (simp_all add: change_ip_attempts_def next_count_def Let_def banned_list_def
      add_banned_ip_def split: option.splits)

lemma add_encrypted_file_fields [simp]:
  "encrypted_file (add_encrypted_file fd f k) = (encrypted_file fd)(f \<mapsto> k)"
  "ip_attempts (add_encrypted_file fd f k) = ip_attempts fd"
  "banned_ip (add_encrypted_file fd f k) = banned_ip fd"
  by (simp_all add: add_encrypted_file_def)

lemma banned_list_change_ip_attempts:
  "banned_list (change_ip_attempts fd f ip) g =
     (if g = f \<and> next_count (ip_attempts fd [f, ip]) = 3
      then banned_list fd f @ [ip] else banned_list fd g)"
  by (simp add: banned_list_def)

lemma access_denied_banned_list:
  "access_denied fd f ip \<longleftrightarrow> contains_key (encrypted_file fd) f \<and> ip \<in> set (banned_list fd f)"
  by (cases "banned_ip fd f") (auto simp: access_denied_def banned_list_def)

subsection \<open>Repeated failures\<close>

lemma fail_n_count:
  "ip_attempts fd [f, ip] = None \<Longrightarrow>
   ip_attempts (fail_n n fd f ip) [f, ip] = (if n = 0 then None else Some (of_nat n))"
  by (induction n) (auto simp: next_count_def)

lemma fail_n_registry: "encrypted_file (fail_n n fd f ip) = encrypted_file fd"
  by (induction n) auto

lemma of_nat_byte_eq_3: "n \<le> 258 \<Longrightarrow> (of_nat n :: byte) = 3 \<longleftrightarrow> n = 3"
proof -
  assume n: "n \<le> 258"
  have "(of_nat n :: byte) = 3 \<longleftrightarrow> n mod 256 = 3"
    by (simp add: byte_eq_3_iff unat_of_nat)
  also have "\<dots> \<longleftrightarrow> n = 3" using n by (auto simp: mod_if)
  finally show ?thesis .
qed

lemma fail_n_banned_list:
  assumes "ip_attempts fd [f, ip] = None" and "n \<le> 258"
  shows "banned_list (fail_n n fd f ip) f = banned_list fd f @ (if 3 \<le> n then [ip] else [])"
  using assms(2)
proof (induction n)
  case 0
  then show ?case by simp
next
  case (Suc n)
  have c: "next_count (ip_attempts (fail_n n fd f ip) [f, ip]) = of_nat (Suc n)"
    using assms(1) by (simp add: fail_n_count next_count_def)
  have e: "(of_nat (Suc n) :: byte) = 3 \<longleftrightarrow> Suc n = 3"
    using Suc.prems by (rule of_nat_byte_eq_3)
  have step: "banned_list (fail_n (Suc n) fd f ip) f
      = banned_list (fail_n n fd f ip) f @ (if Suc n = 3 then [ip] else [])"
    by (simp only: funpow.simps comp_apply banned_list_change_ip_attempts c e) simp
  have IH: "banned_list (fail_n n fd f ip) f = banned_list fd f @ (if 3 \<le> n then [ip] else [])"
    using Suc.prems by (intro Suc.IH) simp
  show ?case
  proof (cases "n = 2")
    case True
    with step IH show ?thesis by simp
  next
    case False
    with step IH show ?thesis by auto
  qed
qed

lemma banned_list_change_prefix:
  "\<exists>zs. banned_list (change_ip_attempts fd f ip) g = banned_list fd g @ zs"
  by (simp add: banned_list_change_ip_attempts)

lemma fail_n_banned_mono:
  "m \<le> n \<Longrightarrow> set (banned_list (fail_n m fd f ip) g) \<subseteq> set (banned_list (fail_n n fd f ip) g)"
proof (induction n)
  case 0
  then show ?case by simp
next
  case (Suc n)
  show ?case
  proof (cases "m = Suc n")
    case False
    with Suc have "set (banned_list (fail_n m fd f ip) g) \<subseteq> set (banned_list (fail_n n fd f ip) g)"
      by simp
    moreover obtain zs where "banned_list (fail_n (Suc n) fd f ip) g = banned_list (fail_n n fd f ip) g @ zs"
      using banned_list_change_prefix by fastforce
    ultimately show ?thesis by auto
  qed simp
qed

text \<open>
  C4: from a registered file with no counter for the address, the address is denied
  access to the file after \<open>n\<close> failed attempts exactly when \<open>n \<ge> 3\<close>: fewer than three
  failures never ban, the third bans, and the ban stays for any number of further failures.
\<close>

theorem three_failures_ban:
  assumes "ip_attempts fd [f, ip] = None" and "ip \<notin> set (banned_list fd f)"
    and "contains_key (encrypted_file fd) f"
  shows "access_denied (fail_n n fd f ip) f ip \<longleftrightarrow> 3 \<le> n"
proof -
  have small: "ip \<in> set (banned_list (fail_n m fd f ip) f) \<longleftrightarrow> 3 \<le> m" if "m \<le> 258" for m
    using fail_n_banned_list [OF assms(1) that] assms(2) by simp
  have "ip \<in> set (banned_list (fail_n n fd f ip) f) \<longleftrightarrow> 3 \<le> n"
  proof (cases "n \<le> 258")
    case True
    then show ?thesis by (rule small)
  next
    case False
    have "ip \<in> set (banned_list (fail_n 3 fd f ip) f)" using small [of 3] by simp
    moreover have "set (banned_list (fail_n 3 fd f ip) f) \<subseteq> set (banned_list (fail_n n fd f ip) f)"
      using False by (intro fail_n_banned_mono) simp
    ultimately show ?thesis using False by auto
  qed
  then show ?thesis using assms(3) by (simp add: access_denied_banned_list fail_n_registry)
qed

text \<open>
  C11: the counters and bans are kept per address: a failure of address \<open>a\<close> on file \<open>f\<close>
  changes neither the counter nor the access of any other address on any file, nor the
  access of \<open>a\<close> itself to another file.
\<close>

theorem failures_isolated:
  assumes "b \<noteq> a"
  shows "access_denied (change_ip_attempts fd f a) g b = access_denied fd g b
    \<and> attempts_of (change_ip_attempts fd f a) g b = attempts_of fd g b
    \<and> (g \<noteq> f \<longrightarrow> access_denied (change_ip_attempts fd f a) g a = access_denied fd g a)"
proof -
  have c: "attempts_of (change_ip_attempts fd f a) g b = attempts_of fd g b"
    using assms by (simp add: attempts_of_def)
  have "b \<in> set (banned_list (change_ip_attempts fd f a) g) \<longleftrightarrow> b \<in> set (banned_list fd g)"
    using assms by (simp add: banned_list_change_ip_attempts)
  then have d: "access_denied (change_ip_attempts fd f a) g b = access_denied fd g b"
    by (simp add: access_denied_banned_list)
  have "g \<noteq> f \<Longrightarrow> banned_list (change_ip_attempts fd f a) g = banned_list fd g"
    by (simp add: banned_list_change_ip_attempts)
  then have "g \<noteq> f \<longrightarrow> access_denied (change_ip_attempts fd f a) g a = access_denied fd g a"
    by (simp add: access_denied_banned_list)
  with c d show ?thesis by blast
qed

theorem three_failures_ban_witness:
  "access_denied (fail_n 3 demo_registered ''out.bin'' ''A'') ''out.bin'' ''A''
   \<and> \<not> access_denied (fail_n 2 demo_registered ''out.bin'' ''A'') ''out.bin'' ''A''"
proof -
  have h1: "ip_attempts demo_registered [''out.bin'', ''A''] = None"
    by (simp add: demo_registered_def file_data_new_def)
  have h2: "''A'' \<notin> set (banned_list demo_registered ''out.bin'')"
    by (simp add: demo_registered_def file_data_new_def banned_list_def)
  have h3: "contains_key (encrypted_file demo_registered) ''out.bin''"
    by (simp add: demo_registered_def file_data_new_def)
  show ?thesis
    using three_failures_ban [OF h1 h2 h3, of 3] three_failures_ban [OF h1 h2 h3, of 2] by simp
qed

theorem failures_isolated_witness:
  "''B'' \<noteq> ''A''
   \<and> access_denied (change_ip_attempts demo_registered ''out.bin'' ''A'') ''out.bin'' ''B''
     = access_denied demo_registered ''out.bin'' ''B''
   \<and> attempts_of (change_ip_attempts demo_registered ''out.bin'' ''A'') ''out.bin'' ''B''
     = attempts_of demo_registered ''out.bin'' ''B''
   \<and> access_denied (change_ip_attempts demo_registered ''out.bin'' ''A'') ''x.bin'' ''A''
     = access_denied demo_registered ''x.bin'' ''A''"
proof -
  have h: "''B'' \<noteq> ''A''" by simp
  have g: "''x.bin'' \<noteq> ''out.bin''" by simp
  show ?thesis using h g failures_isolated [OF h, of demo_registered "''out.bin''" "''out.bin''"]
    failures_isolated [OF h, of demo_registered "''out.bin''" "''x.bin''"] by simp
qed

end
