(* ===== verification/Session.thy ===== *)
theory Session
  imports Cipher Console File_Data
begin

text \<open>
  The loop of \<open>main\<close> (\<^verbatim>\<open>src/main.rs\<close> lines 66--151). The process state is the
  \<open>FileData\<close> record and the file system, a partial map from names to contents. One
  iteration of the loop is \<open>main_iteration\<close>: the operator's three lines and the
  file-system answers it gets are a \<open>request\<close> (the theory \<open>Stdin\<close> reads the lines
  from standard input in the code's order and is proved to agree); every \<open>continue\<close> of the source is an
  outcome of \<open>cycle_outcome\<close>, returned with the state as the iteration left it. The part
  after the key checks (lines 118--148: read, transform, create the output, register,
  write) is \<open>process_and_write\<close>. \<open>File::open\<close> fails on a missing name or with the
  error the request injects; reading, creating and writing fail when the request says so
  (a failed write leaves the bytes written so far). \<open>main_loop\<close> runs the iterations
  over a list of requests, \<open>main_start\<close> is the address lookup before the loop (an
  \<open>expect\<close> that panics), and \<open>reachable\<close> is every state the process can be in: the
  start state, then iterations and changes of the file system by other programs.
\<close>

datatype io_error = NotFound | PermissionDenied | IsADirectory | OtherIoError

record request =
  input_line :: string
  open_error :: "io_error option"
  key_line :: string
  read_error :: "io_error option"
  output_line :: string
  create_error :: "io_error option"
  write_error :: "(nat \<times> io_error) option"

record session =
  files :: "string \<rightharpoonup> byte list"
  info :: file_data

datatype cycle_outcome =
    CantOpen io_error
  | AccessDenied
  | BadKey key_report
  | UselessKey
  | IncorrectKey
  | ReadError io_error
  | CantCreate io_error
  | WriteError io_error
  | Processed

text \<open>\<open>std::fs::File::open\<close> (line 74), as far as the loop observes it.\<close>

definition open_file :: "(string \<rightharpoonup> byte list) \<Rightarrow> io_error option \<Rightarrow> string \<Rightarrow> io_error + byte list" where
  "open_file fs err name =
     (case err of
        Some e \<Rightarrow> Inl e
      | None \<Rightarrow> (case fs name of None \<Rightarrow> Inl NotFound | Some data \<Rightarrow> Inr data))"

text \<open>
  \<open>BufWriter::new\<close> (line 141) has a buffer of \<open>DEFAULT_BUF_SIZE\<close>, 8 KiB. Its
  \<open>write_all\<close> (line 143) into the empty buffer writes a slice of at least the capacity
  straight through to the file and returns the file's error; a shorter slice only goes
  into the buffer and succeeds. The buffer is flushed when the writer is dropped at the
  end of the iteration, and \<open>Drop\<close> discards the flush's error. The result is the error
  \<open>write_all\<close> returns and the bytes that reach the file; the request's
  \<open>write_error\<close> is the file's failure, with the number of bytes it accepts first.
\<close>

definition default_buf_size :: nat where
  "default_buf_size = 8 * 1024"

definition buf_writer_write_all ::
  "byte list \<Rightarrow> (nat \<times> io_error) option \<Rightarrow> io_error option \<times> byte list" where
  "buf_writer_write_all data device =
     (let reaching = (case device of None \<Rightarrow> data | Some (n, _) \<Rightarrow> take n data)
      in if default_buf_size \<le> length data then (map_option snd device, reaching)
         else (None, reaching))"

text \<open>Lines 118--148: read the input, transform it, ask for the output name, create
  (truncate) the output, register the output name if the input name was not registered,
  write through the \<open>BufWriter\<close>.\<close>

definition process_and_write ::
  "session \<Rightarrow> request \<Rightarrow> string \<Rightarrow> byte list \<Rightarrow> byte \<Rightarrow> cycle_outcome \<times> session" where
  "process_and_write st rq input_file_name input_data key =
     (case read_error rq of
        Some err \<Rightarrow> (ReadError err, st)
      | None \<Rightarrow>
          (let processed_data = process_file_data input_data key;
               output_file_name = get_input (output_line rq)
           in case create_error rq of
                Some err \<Rightarrow> (CantCreate err, st)
              | None \<Rightarrow>
                  (let created = (files st)(output_file_name \<mapsto> []);
                       info' = (if \<not> contains_key (encrypted_file (info st)) input_file_name
                                then add_encrypted_file (info st) output_file_name key
                                else info st)
                   in case buf_writer_write_all processed_data (write_error rq) of
                        (Some err, written) \<Rightarrow>
                          (WriteError err,
                           st\<lparr>files := created(output_file_name \<mapsto> written), info := info'\<rparr>)
                      | (None, written) \<Rightarrow>
                          (Processed,
                           st\<lparr>files := created(output_file_name \<mapsto> written), info := info'\<rparr>))))"

text \<open>One iteration of the loop, lines 71--148.\<close>

definition main_iteration :: "string \<Rightarrow> session \<Rightarrow> request \<Rightarrow> cycle_outcome \<times> session" where
  "main_iteration user_ip st rq =
     (let input_file_name = get_input (input_line rq) in
      case open_file (files st) (open_error rq) input_file_name of
        Inl err \<Rightarrow> (CantOpen err, st)
      | Inr input_file \<Rightarrow>
          if access_denied (info st) input_file_name user_ip then (AccessDenied, st)
          else
            (case read_key (key_line rq) of
               Inl err \<Rightarrow> (BadKey (report_key_error err), st)
             | Inr key \<Rightarrow>
                 if key = 0 then (UselessKey, st)
                 else if incorrect_key (info st) input_file_name key
                 then (IncorrectKey,
                       st\<lparr>info := change_ip_attempts (info st) input_file_name user_ip\<rparr>)
                 else process_and_write st rq input_file_name input_file key))"

text \<open>The endless loop, run over the requests of a finite prefix of its iterations.\<close>

fun main_loop :: "string \<Rightarrow> session \<Rightarrow> request list \<Rightarrow> cycle_outcome list \<times> session" where
  "main_loop user_ip st [] = ([], st)"
| "main_loop user_ip st (rq # rqs) =
     (let (out, st') = main_iteration user_ip st rq;
          (outs, st'') = main_loop user_ip st' rqs
      in (out # outs, st''))"

datatype startup_panic = CantGetIp

text \<open>Lines 67--68: the address (\<open>None\<close> when \<open>local_ip\<close> fails) and the empty record.\<close>

definition main_start ::
  "string option \<Rightarrow> (string \<rightharpoonup> byte list) \<Rightarrow> startup_panic + string \<times> session" where
  "main_start local_ip fs =
     (case local_ip of
        None \<Rightarrow> Inl CantGetIp
      | Some user_ip \<Rightarrow> Inr (user_ip, \<lparr>files = fs, info = file_data_new\<rparr>))"

inductive reachable :: "string \<Rightarrow> session \<Rightarrow> bool" where
  start: "main_start (Some user_ip) fs = Inr (user_ip, st) \<Longrightarrow> reachable user_ip st"
| iteration: "reachable user_ip st \<Longrightarrow> main_iteration user_ip st rq = (out, st')
    \<Longrightarrow> reachable user_ip st'"
| environment: "reachable user_ip st \<Longrightarrow> reachable user_ip (st\<lparr>files := fs\<rparr>)"

text \<open>
  The invariant of the access-control state of a process with address \<open>ip\<close>: every
  counter belongs to a pair \<open>[f, ip]\<close> with \<open>f\<close> registered and lies in 1..3, and a file
  has a ban vector exactly when its counter is 3, the vector being \<open>[ip]\<close>.
\<close>

definition guard_inv :: "string \<Rightarrow> file_data \<Rightarrow> bool" where
  "guard_inv ip fd \<longleftrightarrow>
     (\<forall>k v. ip_attempts fd k = Some v \<longrightarrow>
        (\<exists>f. k = [f, ip] \<and> contains_key (encrypted_file fd) f \<and> 1 \<le> unat v \<and> unat v \<le> 3))
   \<and> (\<forall>f. banned_ip fd f = (if attempts_of fd f ip = 3 then Some [ip] else None))"

text \<open>The outcomes after which the state may differ from the one before.\<close>

fun mutating :: "cycle_outcome \<Rightarrow> bool" where
  "mutating IncorrectKey = True"
| "mutating (WriteError e) = True"
| "mutating Processed = True"
| "mutating _ = False"

text \<open>A request with the three lines given and no file-system failure; the request the
  loop sees when standard input is at its end (\<open>read_line\<close> leaves the buffer empty).\<close>

definition req :: "string \<Rightarrow> string \<Rightarrow> string \<Rightarrow> request" where
  "req input_name key_text output_name =
     \<lparr>input_line = input_name, open_error = None, key_line = key_text, read_error = None,
      output_line = output_name, create_error = None, write_error = None\<rparr>"

definition no_io_errors :: "request \<Rightarrow> bool" where
  "no_io_errors rq \<longleftrightarrow> open_error rq = None \<and> read_error rq = None \<and> create_error rq = None
     \<and> write_error rq = None"

definition demo_ip :: string where "demo_ip = ''192.168.1.5''"

definition demo_st :: session where
  "demo_st = \<lparr>files = [''a.txt'' \<mapsto> [72, 105], ''b.txt'' \<mapsto> [1]], info = file_data_new\<rparr>"

definition demo_encrypt :: request where "demo_encrypt = req ''a.txt'' ''7'' ''out.bin''"
definition demo_wrong :: request where "demo_wrong = req ''out.bin'' ''8'' ''x.txt''"

declare open_file_def [cycle_defs] process_and_write_def [cycle_defs]
  main_iteration_def [cycle_defs]

subsection \<open>The invariant\<close>

lemma unat_next_count:
  "attempts_of fd f ip < 255 \<Longrightarrow>
   unat (next_count (ip_attempts fd [f, ip])) = attempts_of fd f ip + 1"
  by (auto simp: next_count_def attempts_of_def unat_byte_inc split: option.splits)

lemma attempts_of_change:
  "attempts_of fd f ip < 255 \<Longrightarrow>
   attempts_of (change_ip_attempts fd f ip) g a =
     (if g = f \<and> a = ip then attempts_of fd f ip + 1 else attempts_of fd g a)"
  by (auto simp: attempts_of_def unat_next_count [unfolded attempts_of_def])

lemma guard_inv_new: "guard_inv ip file_data_new"
  by (simp add: guard_inv_def file_data_new_def attempts_of_def)

lemma guard_inv_register: "guard_inv ip fd \<Longrightarrow> guard_inv ip (add_encrypted_file fd g k)"
  by (fastforce simp: guard_inv_def attempts_of_def)

lemma guard_inv_attempts_le:
  "guard_inv ip fd \<Longrightarrow> attempts_of fd f a \<le> 3"
  by (cases "ip_attempts fd [f, a]") (auto simp: guard_inv_def attempts_of_def)

lemma guard_inv_denied:
  "guard_inv ip fd \<Longrightarrow> contains_key (encrypted_file fd) f \<Longrightarrow>
   access_denied fd f ip \<longleftrightarrow> attempts_of fd f ip = 3"
  by (auto simp: guard_inv_def access_denied_def)

lemma guard_inv_failure:
  assumes inv: "guard_inv ip fd" and reg: "contains_key (encrypted_file fd) f"
    and ok: "\<not> access_denied fd f ip"
  shows "guard_inv ip (change_ip_attempts fd f ip)"
proof -
  let ?fd' = "change_ip_attempts fd f ip"
  have lt: "attempts_of fd f ip < 3"
    using guard_inv_attempts_le [OF inv, of f ip] guard_inv_denied [OF inv reg] ok by linarith
  then have att: "attempts_of ?fd' g a = (if g = f \<and> a = ip then attempts_of fd f ip + 1 else attempts_of fd g a)"
    for g a by (simp add: attempts_of_change)
  have nc: "unat (next_count (ip_attempts fd [f, ip])) = attempts_of fd f ip + 1"
    using lt by (simp add: unat_next_count)
  have bf: "banned_ip fd f = None" using inv lt by (simp add: guard_inv_def)
  have part1: "\<exists>g. k = [g, ip] \<and> contains_key (encrypted_file ?fd') g \<and> 1 \<le> unat v \<and> unat v \<le> 3"
    if "ip_attempts ?fd' k = Some v" for k v
  proof (cases "k = [f, ip]")
    case True
    with that nc lt reg show ?thesis by auto
  next
    case False
    with that inv show ?thesis by (auto simp: guard_inv_def)
  qed
  have part2: "banned_ip ?fd' g = (if attempts_of ?fd' g ip = 3 then Some [ip] else None)" for g
  proof (cases "g = f")
    case True
    have "next_count (ip_attempts fd [f, ip]) = 3 \<longleftrightarrow> attempts_of fd f ip + 1 = 3"
      using nc by (simp add: byte_eq_3_iff)
    with True bf show ?thesis by (simp add: att banned_list_def)
  next
    case False
    with inv show ?thesis by (simp add: att guard_inv_def)
  qed
  from part1 part2 show ?thesis by (simp add: guard_inv_def)
qed

lemma process_and_write_info:
  "process_and_write st rq f d key = (out, st') \<Longrightarrow>
   info st' = info st \<or> info st' = add_encrypted_file (info st) (get_input (output_line rq)) key"
  by (auto simp: process_and_write_def Let_def split: option.splits prod.splits)

lemma main_iteration_info:
  assumes it: "main_iteration ip st rq = (out, st')"
  obtains (same) "info st' = info st"
  | (failure) key where "read_key (key_line rq) = Inr key" "key \<noteq> 0"
      "\<not> access_denied (info st) (get_input (input_line rq)) ip"
      "incorrect_key (info st) (get_input (input_line rq)) key"
      "info st' = change_ip_attempts (info st) (get_input (input_line rq)) ip"
  | (register) key where "info st' = add_encrypted_file (info st) (get_input (output_line rq)) key"
proof -
  let ?f = "get_input (input_line rq)"
  show thesis
  proof (cases "open_file (files st) (open_error rq) ?f")
    case (Inl err)
    with it show ?thesis by (intro same) (auto simp: main_iteration_def)
  next
    case opened: (Inr d)
    show ?thesis
    proof (cases "access_denied (info st) ?f ip")
      case True
      with opened it show ?thesis by (intro same) (auto simp: main_iteration_def)
    next
      case allowed: False
      show ?thesis
      proof (cases "read_key (key_line rq)")
        case (Inl e)
        with opened allowed it show ?thesis by (intro same) (auto simp: main_iteration_def)
      next
        case key: (Inr key)
        consider "key = 0" | "key \<noteq> 0" "incorrect_key (info st) ?f key"
          | "key \<noteq> 0" "\<not> incorrect_key (info st) ?f key" by blast
        then show ?thesis
        proof cases
          case 1
          with opened allowed key it show ?thesis by (intro same) (auto simp: main_iteration_def)
        next
          case 2
          with opened allowed key it show ?thesis
            by (intro failure [of key]) (auto simp: main_iteration_def)
        next
          case 3
          with opened allowed key it
          have "process_and_write st rq ?f d key = (out, st')"
            by (simp add: main_iteration_def)
          then show ?thesis
            by (rule process_and_write_info [THEN disjE]) (erule same, erule register)
        qed
      qed
    qed
  qed
qed

lemma reachable_inv: "reachable ip st \<Longrightarrow> guard_inv ip (info st)"
proof (induction rule: reachable.induct)
  case (start user_ip fs st)
  then have "st = \<lparr>files = fs, info = file_data_new\<rparr>" by (simp add: main_start_def)
  then show ?case by (simp add: guard_inv_new)
next
  case (iteration user_ip st rq out st')
  from iteration.hyps(2) show ?case
  proof (cases rule: main_iteration_info)
    case same
    with iteration.IH show ?thesis by simp
  next
    case (failure key)
    then have "contains_key (encrypted_file (info st)) (get_input (input_line rq))"
      by (simp add: incorrect_key_def)
    with failure iteration.IH show ?thesis by (simp add: guard_inv_failure)
  next
    case (register key)
    with iteration.IH show ?thesis by (simp add: guard_inv_register)
  qed
next
  case (environment user_ip st fs)
  then show ?case by simp
qed

subsection \<open>Outcomes of one iteration\<close>

lemma buf_writer_write_all_None [simp]: "buf_writer_write_all data None = (None, data)"
  by (simp add: buf_writer_write_all_def)

lemma process_and_write_cases:
  assumes "process_and_write st rq f d key = (out, st')"
  shows "((\<exists>e. out = ReadError e \<or> out = CantCreate e) \<and> st' = st)
   \<or> (read_error rq = None \<and> create_error rq = None
        \<and> out = (case fst (buf_writer_write_all (process_file_data d key) (write_error rq)) of
                   Some e \<Rightarrow> WriteError e | None \<Rightarrow> Processed)
        \<and> files st' = (files st)(get_input (output_line rq) \<mapsto>
                         snd (buf_writer_write_all (process_file_data d key) (write_error rq)))
        \<and> info st' = (if contains_key (encrypted_file (info st)) f then info st
                      else add_encrypted_file (info st) (get_input (output_line rq)) key))"
  using assms by (auto simp: process_and_write_def Let_def split: option.splits prod.splits)

lemma main_iteration_open:
  "open_file (files st) (open_error rq) (get_input (input_line rq)) = Inl err \<Longrightarrow>
   main_iteration ip st rq = (CantOpen err, st)"
  by (simp add: main_iteration_def)

lemma main_iteration_denied:
  "open_file (files st) (open_error rq) (get_input (input_line rq)) = Inr d \<Longrightarrow>
   access_denied (info st) (get_input (input_line rq)) ip \<Longrightarrow>
   main_iteration ip st rq = (AccessDenied, st)"
  by (simp add: main_iteration_def)

lemma main_iteration_allowed:
  "open_file (files st) (open_error rq) (get_input (input_line rq)) = Inr d \<Longrightarrow>
   \<not> access_denied (info st) (get_input (input_line rq)) ip \<Longrightarrow>
   main_iteration ip st rq =
     (case read_key (key_line rq) of
        Inl err \<Rightarrow> (BadKey (report_key_error err), st)
      | Inr key \<Rightarrow>
          if key = 0 then (UselessKey, st)
          else if incorrect_key (info st) (get_input (input_line rq)) key
          then (IncorrectKey,
                st\<lparr>info := change_ip_attempts (info st) (get_input (input_line rq)) ip\<rparr>)
          else process_and_write st rq (get_input (input_line rq)) d key)"
  by (simp add: main_iteration_def Let_def)

lemma open_file_Inr: "open_file fs err name = Inr d \<longleftrightarrow> err = None \<and> fs name = Some d"
  by (simp add: open_file_def split: option.splits)

text \<open>C12: a key line that parses to 0 never reaches the registry: the iteration ends with "useless key" (or earlier, at the open or ban test) and leaves the state unchanged.\<close>

theorem zero_key_rejected:
  assumes "read_key (key_line rq) = Inr 0" and "main_iteration ip st rq = (out, st')"
  shows "st' = st \<and> (out = UselessKey \<or> out = AccessDenied \<or> (\<exists>e. out = CantOpen e))"
proof (cases "open_file (files st) (open_error rq) (get_input (input_line rq))")
  case (Inl err)
  with assms show ?thesis by (auto simp: main_iteration_open)
next
  case (Inr d)
  with assms show ?thesis
    by (cases "access_denied (info st) (get_input (input_line rq)) ip")
       (simp_all add: main_iteration_denied main_iteration_allowed)
qed

text \<open>C13: every iteration that ends with an error other than a wrong key or a failed write leaves the whole state unchanged, and a wrong key changes neither the files nor the key registry.\<close>

theorem error_outcomes_frame:
  assumes "main_iteration ip st rq = (out, st')"
  shows "(\<not> mutating out \<longrightarrow> st' = st)
    \<and> (out = IncorrectKey \<longrightarrow> files st' = files st \<and> encrypted_file (info st') = encrypted_file (info st))"
proof (cases "open_file (files st) (open_error rq) (get_input (input_line rq))")
  case (Inl err)
  with assms show ?thesis by (simp add: main_iteration_open)
next
  case (Inr d)
  show ?thesis
  proof (cases "access_denied (info st) (get_input (input_line rq)) ip")
    case True
    with Inr assms show ?thesis by (simp add: main_iteration_denied)
  next
    case False
    show ?thesis
    proof (cases "read_key (key_line rq)")
      case (Inl e)
      with Inr False assms show ?thesis by (simp add: main_iteration_allowed)
    next
      case k: (Inr key)
      show ?thesis
      proof (cases "key = 0 \<or> incorrect_key (info st) (get_input (input_line rq)) key")
        case True
        with Inr False k assms show ?thesis by (auto simp: main_iteration_allowed split: if_splits)
      next
        case nz: False
        with Inr False k assms have "process_and_write st rq (get_input (input_line rq)) d key = (out, st')"
          by (simp add: main_iteration_allowed)
        then show ?thesis by (auto dest: process_and_write_cases split: option.splits)
      qed
    qed
  qed
qed

lemma main_iteration_files_mono:
  "main_iteration ip st rq = (out, st') \<Longrightarrow> dom (files st) \<subseteq> dom (files st')"
  by (auto simp: main_iteration_def process_and_write_def Let_def
      split: sum.splits if_splits option.splits prod.splits)

lemma banned_list_mono_iteration:
  assumes "main_iteration ip st rq = (out, st')"
  shows "set (banned_list (info st) f) \<subseteq> set (banned_list (info st') f)
     \<and> dom (encrypted_file (info st)) \<subseteq> dom (encrypted_file (info st'))"
  using assms
proof (cases rule: main_iteration_info)
  case same
  then show ?thesis by simp
next
  case (failure key)
  then show ?thesis by (auto simp: banned_list_change_ip_attempts)
next
  case (register key)
  then show ?thesis by (auto simp: banned_list_def)
qed

lemma access_denied_iteration:
  "main_iteration ip' st rq = (out, st') \<Longrightarrow> access_denied (info st) f ip \<Longrightarrow>
   access_denied (info st') f ip"
  by (auto simp: access_denied_banned_list dest!: banned_list_mono_iteration [where f = f])

lemma main_loop_Cons_eq:
  "main_iteration ip st rq = (out1, st1) \<Longrightarrow> main_loop ip st1 rqs = (outs1, st2) \<Longrightarrow>
   main_loop ip st (rq # rqs) = (out1 # outs1, st2)"
  by simp

lemma main_loop_keeps_denied:
  "main_loop ip st rqs = (outs, st') \<Longrightarrow> access_denied (info st) f ip' \<Longrightarrow>
   access_denied (info st') f ip' \<and> dom (files st) \<subseteq> dom (files st')"
proof (induction rqs arbitrary: st outs st')
  case Nil
  then show ?case by simp
next
  case (Cons rq rqs)
  obtain out1 st1 where it: "main_iteration ip st rq = (out1, st1)" by fastforce
  obtain outs1 st2 where rest: "main_loop ip st1 rqs = (outs1, st2)" by fastforce
  have "st' = st2" using Cons.prems(1) it rest by simp
  moreover have "access_denied (info st1) f ip'"
    using it Cons.prems(2) by (rule access_denied_iteration)
  ultimately show ?case
    using Cons.IH [OF rest] main_iteration_files_mono [OF it] by blast
qed

text \<open>C1: once an address is banned on an existing file, every later iteration of the loop that opens that file is answered "Access denied", and the ban is still in force after the run.\<close>

theorem ban_is_permanent:
  assumes "access_denied (info st) f ip" and "contains_key (files st) f"
    and "main_loop ip st rqs = (outs, st')"
    and "i < length rqs" and "get_input (input_line (rqs ! i)) = f" and "open_error (rqs ! i) = None"
  shows "outs ! i = AccessDenied \<and> access_denied (info st') f ip"
  using assms
proof (induction rqs arbitrary: st outs i st')
  case Nil
  then show ?case by simp
next
  case (Cons rq rqs)
  obtain out1 st1 where it: "main_iteration ip st rq = (out1, st1)" by fastforce
  obtain outs1 st2 where rest: "main_loop ip st1 rqs = (outs1, st2)" by fastforce
  have outs: "outs = out1 # outs1" and st': "st' = st2" using Cons.prems(3) it rest by auto
  have d1: "access_denied (info st1) f ip" using it Cons.prems(1) by (rule access_denied_iteration)
  have f1: "contains_key (files st1) f"
    using main_iteration_files_mono [OF it] Cons.prems(2) by auto
  have den: "access_denied (info st') f ip"
    using main_loop_keeps_denied [OF rest d1] st' by simp
  show ?case
  proof (cases i)
    case 0
    then have "get_input (input_line rq) = f" "open_error rq = None"
      using Cons.prems(5,6) by simp_all
    then have "out1 = AccessDenied"
      using it Cons.prems(1,2) by (auto simp: open_file_def main_iteration_denied)
    with outs 0 den show ?thesis by simp
  next
    case (Suc j)
    then have "outs1 ! j = AccessDenied"
      using Cons.IH [OF d1 f1 rest] Cons.prems(4-6) by simp
    with outs Suc den show ?thesis by simp
  qed
qed

subsection \<open>Runs\<close>

text \<open>C5: in every reachable state each attempt counter belongs to a registered file and the process address and lies between 1 and 3, so the u8 increment never wraps (nor panics in a debug build).\<close>

theorem reachable_counter_bounds:
  assumes "reachable ip st" and "ip_attempts (info st) k = Some v"
  shows "(\<exists>f. k = [f, ip] \<and> contains_key (encrypted_file (info st)) f)
    \<and> 1 \<le> unat v \<and> unat v \<le> 3 \<and> unat (v + 1) = unat v + 1"
proof -
  have "guard_inv ip (info st)" using assms(1) by (rule reachable_inv)
  with assms(2) have "(\<exists>f. k = [f, ip] \<and> contains_key (encrypted_file (info st)) f)
    \<and> 1 \<le> unat v \<and> unat v \<le> 3" by (fastforce simp: guard_inv_def)
  then show ?thesis by (simp add: unat_byte_inc)
qed

text \<open>C6: in every reachable state a file has a ban vector exactly when its counter is 3, and that vector holds the address once.\<close>

theorem reachable_bans_exact:
  assumes "reachable ip st"
  shows "banned_ip (info st) f = (if attempts_of (info st) f ip = 3 then Some [ip] else None)"
  using reachable_inv [OF assms] by (simp add: guard_inv_def)

lemma iteration_wrong_key:
  assumes "get_input (input_line rq) = f" "open_error rq = None" "contains_key (files st) f"
    "\<not> access_denied (info st) f ip" "read_key (key_line rq) = Inr k" "k \<noteq> 0"
    "incorrect_key (info st) f k"
  shows "main_iteration ip st rq = (IncorrectKey, st\<lparr>info := change_ip_attempts (info st) f ip\<rparr>)"
  using assms by (auto simp: main_iteration_def open_file_def Let_def)

lemma wrong_key_steps:
  assumes "get_input (input_line rq) = f" "open_error rq = None" "contains_key (files st) f"
    "read_key (key_line rq) = Inr k" "k \<noteq> 0" "encrypted_file (info st) f = Some k0" "k0 \<noteq> k"
    "ip_attempts (info st) [f, ip] = None" "ip \<notin> set (banned_list (info st) f)" "i < 3"
  shows "main_iteration ip (st\<lparr>info := fail_n i (info st) f ip\<rparr>) rq
    = (IncorrectKey, st\<lparr>info := fail_n (Suc i) (info st) f ip\<rparr>)"
proof -
  have "banned_list (fail_n i (info st) f ip) f = banned_list (info st) f"
    using fail_n_banned_list [OF assms(8), of i] assms(10) by simp
  then have "\<not> access_denied (fail_n i (info st) f ip) f ip"
    using assms(9) by (simp add: access_denied_banned_list)
  moreover have "incorrect_key (fail_n i (info st) f ip) f k"
    using assms(6,7) by (simp add: incorrect_key_def fail_n_registry)
  ultimately show ?thesis
    using assms(1-5) by (simp add: iteration_wrong_key)
qed

text \<open>C2: three wrong keys for a registered file give three "Incorrect key" answers and the fourth attempt is denied before the key is compared.\<close>

theorem three_wrong_keys_then_denied:
  assumes "get_input (input_line rq) = f" "open_error rq = None" "contains_key (files st) f"
    "read_key (key_line rq) = Inr k" "k \<noteq> 0" "encrypted_file (info st) f = Some k0" "k0 \<noteq> k"
    "ip_attempts (info st) [f, ip] = None" "ip \<notin> set (banned_list (info st) f)"
  shows "fst (main_loop ip st [rq, rq, rq, rq]) = [IncorrectKey, IncorrectKey, IncorrectKey, AccessDenied]"
proof -
  note step = wrong_key_steps [OF assms]
  have s0: "st = st\<lparr>info := fail_n 0 (info st) f ip\<rparr>" by simp
  have "banned_list (fail_n 3 (info st) f ip) f = banned_list (info st) f @ [ip]"
    using fail_n_banned_list [OF assms(8), of 3] by simp
  then have "access_denied (fail_n 3 (info st) f ip) f ip"
    using assms(6) by (simp add: access_denied_banned_list fail_n_registry)
  then have last: "main_iteration ip (st\<lparr>info := fail_n 3 (info st) f ip\<rparr>) rq
      = (AccessDenied, st\<lparr>info := fail_n 3 (info st) f ip\<rparr>)"
    using assms(1-3) by (auto simp: main_iteration_def open_file_def Let_def)
  have "main_iteration ip st rq = (IncorrectKey, st\<lparr>info := fail_n 1 (info st) f ip\<rparr>)"
    using step [of 0] by simp
  moreover have "main_iteration ip (st\<lparr>info := fail_n 1 (info st) f ip\<rparr>) rq
      = (IncorrectKey, st\<lparr>info := fail_n 2 (info st) f ip\<rparr>)"
    using step [of 1] by (simp add: numeral_2_eq_2)
  moreover have "main_iteration ip (st\<lparr>info := fail_n 2 (info st) f ip\<rparr>) rq
      = (IncorrectKey, st\<lparr>info := fail_n 3 (info st) f ip\<rparr>)"
    using step [of 2] by (simp add: numeral_3_eq_3 numeral_2_eq_2)
  ultimately show ?thesis using last by simp
qed

text \<open>C14: an iteration that succeeds has read an existing input with a non-zero accepted key, wrote the transformed bytes to the output name, and registered the output name with the key exactly when the input name was not registered.\<close>

theorem processed_effect:
  assumes "main_iteration ip st rq = (Processed, st')"
  shows "\<exists>data key. files st (get_input (input_line rq)) = Some data
    \<and> read_key (key_line rq) = Inr key \<and> key \<noteq> 0
    \<and> \<not> access_denied (info st) (get_input (input_line rq)) ip
    \<and> \<not> incorrect_key (info st) (get_input (input_line rq)) key
    \<and> files st' = (files st)(get_input (output_line rq) \<mapsto>
                     snd (buf_writer_write_all (process_file_data data key) (write_error rq)))
    \<and> info st' = (if contains_key (encrypted_file (info st)) (get_input (input_line rq)) then info st
                  else add_encrypted_file (info st) (get_input (output_line rq)) key)"
proof (cases "open_file (files st) (open_error rq) (get_input (input_line rq))")
  case (Inl err)
  with assms show ?thesis by (simp add: main_iteration_open)
next
  case (Inr d)
  then have d: "files st (get_input (input_line rq)) = Some d" by (simp add: open_file_Inr)
  show ?thesis
  proof (cases "access_denied (info st) (get_input (input_line rq)) ip")
    case True
    with Inr assms show ?thesis by (simp add: main_iteration_denied)
  next
    case False
    with Inr assms obtain key where k: "read_key (key_line rq) = Inr key" "key \<noteq> 0"
      "\<not> incorrect_key (info st) (get_input (input_line rq)) key"
      "process_and_write st rq (get_input (input_line rq)) d key = (Processed, st')"
      by (auto simp: main_iteration_allowed split: sum.splits if_splits)
    from k(4) have "files st' = (files st)(get_input (output_line rq) \<mapsto>
                       snd (buf_writer_write_all (process_file_data d key) (write_error rq)))
      \<and> info st' = (if contains_key (encrypted_file (info st)) (get_input (input_line rq)) then info st
                  else add_encrypted_file (info st) (get_input (output_line rq)) key)"
      by (auto dest: process_and_write_cases split: option.splits)
    with d k False show ?thesis by blast
  qed
qed

lemma iteration_success:
  assumes "get_input (input_line rq) = f" "no_io_errors rq" "files st f = Some d"
    "\<not> access_denied (info st) f ip" "read_key (key_line rq) = Inr k" "k \<noteq> 0"
    "\<not> incorrect_key (info st) f k"
  shows "main_iteration ip st rq =
    (Processed, st\<lparr>files := (files st)(get_input (output_line rq) \<mapsto> process_file_data d k),
                   info := (if contains_key (encrypted_file (info st)) f then info st
                            else add_encrypted_file (info st) (get_input (output_line rq)) k)\<rparr>)"
  using assms by (simp add: main_iteration_def process_and_write_def open_file_def no_io_errors_def
      buf_writer_write_all_def Let_def)

text \<open>C19: encrypting an unregistered file to an output name and then processing that output with the same key writes the original contents back.\<close>

theorem encrypt_decrypt_roundtrip:
  assumes "files st a = Some data" and "\<not> contains_key (encrypted_file (info st)) a"
    and "read_key (key_line rq1) = Inr k" and "read_key (key_line rq2) = Inr k" and "k \<noteq> 0"
    and "get_input (input_line rq1) = a" and "get_input (output_line rq1) = out"
    and "get_input (input_line rq2) = out" and "banned_ip (info st) out = None"
    and "no_io_errors rq1" and "no_io_errors rq2"
  shows "fst (main_loop ip st [rq1, rq2]) = [Processed, Processed]
    \<and> files (snd (main_loop ip st [rq1, rq2])) (get_input (output_line rq2)) = Some data"
proof -
  let ?st1 = "st\<lparr>files := (files st)(out \<mapsto> process_file_data data k),
                 info := add_encrypted_file (info st) out k\<rparr>"
  have nd1: "\<not> access_denied (info st) a ip" using assms(2) by (simp add: access_denied_def)
  have ni1: "\<not> incorrect_key (info st) a k" using assms(2) by (simp add: incorrect_key_def)
  have it1: "main_iteration ip st rq1 = (Processed, ?st1)"
    using iteration_success [OF assms(6,10,1) nd1 assms(3,5) ni1] assms(2,7) by simp
  have f2: "files ?st1 out = Some (process_file_data data k)" by simp
  have nd2: "\<not> access_denied (info ?st1) out ip" using assms(9) by (simp add: access_denied_def)
  have ni2: "\<not> incorrect_key (info ?st1) out k" by (simp add: incorrect_key_def)
  have it2: "main_iteration ip ?st1 rq2 = (Processed,
      ?st1\<lparr>files := (files ?st1)(get_input (output_line rq2) \<mapsto>
                    process_file_data (process_file_data data k) k),
           info := info ?st1\<rparr>)"
    using iteration_success [OF assms(8,11) f2 nd2 assms(4,5) ni2] by simp
  show ?thesis using it1 it2 by (simp add: process_file_data_map comp_def)
qed

lemma buf_writer_write_all_error:
  "fst (buf_writer_write_all data device) = Some e \<Longrightarrow>
   \<exists>n. device = Some (n, e) \<and> default_buf_size \<le> length data"
  by (auto simp: buf_writer_write_all_def Let_def split: if_splits option.splits)

text \<open>
  C16: an iteration reports a write error only when the file system failed on a direct write,
  which the BufWriter does only for an output of at least 8 KiB; shorter outputs go through
  the buffer, whose flush error is dropped.
\<close>

theorem write_error_only_large:
  assumes "main_iteration ip st rq = (WriteError e, st')"
  shows "\<exists>n d. write_error rq = Some (n, e) \<and> files st (get_input (input_line rq)) = Some d
    \<and> default_buf_size \<le> length d"
proof (cases "open_file (files st) (open_error rq) (get_input (input_line rq))")
  case (Inl err)
  with assms show ?thesis by (simp add: main_iteration_open)
next
  case (Inr d)
  then have d: "files st (get_input (input_line rq)) = Some d" by (simp add: open_file_Inr)
  show ?thesis
  proof (cases "access_denied (info st) (get_input (input_line rq)) ip")
    case True
    with Inr assms show ?thesis by (simp add: main_iteration_denied)
  next
    case False
    with Inr assms obtain key where
      "process_and_write st rq (get_input (input_line rq)) d key = (WriteError e, st')"
      by (auto simp: main_iteration_allowed split: sum.splits if_splits)
    then have "fst (buf_writer_write_all (process_file_data d key) (write_error rq)) = Some e"
      by (auto dest!: process_and_write_cases split: option.splits)
    then obtain n where "write_error rq = Some (n, e)"
      "default_buf_size \<le> length (process_file_data d key)"
      by (blast dest: buf_writer_write_all_error)
    with d show ?thesis by (auto simp: process_file_data_map)
  qed
qed

text \<open>
  C15: when the file system fails while an output under 8 KiB is written, from an input
  name that is not registered, the iteration still reports success, the output file holds
  only the bytes the file accepted, and the output name is registered with the key: the
  write error is lost in the flush of the dropped BufWriter, and the registration happened
  before the write.
\<close>

theorem failed_write_registers:
  assumes "get_input (input_line rq) = f" and "files st f = Some d" and "open_error rq = None"
    and "\<not> contains_key (encrypted_file (info st)) f"
    and "read_key (key_line rq) = Inr k" and "k \<noteq> 0"
    and "read_error rq = None" and "create_error rq = None"
    and "write_error rq = Some (n, e)" and "length d < default_buf_size"
  shows "fst (main_iteration ip st rq) = Processed
    \<and> files (snd (main_iteration ip st rq)) (get_input (output_line rq))
        = Some (take n (process_file_data d k))
    \<and> encrypted_file (info (snd (main_iteration ip st rq))) (get_input (output_line rq)) = Some k"
  using assms
  by (simp add: main_iteration_def process_and_write_def open_file_def buf_writer_write_all_def
      access_denied_def incorrect_key_def add_encrypted_file_def process_file_data_map Let_def)

subsection \<open>Witnesses and concrete runs\<close>

lemma reachable_main_loop:
  "reachable ip st \<Longrightarrow> reachable ip (snd (main_loop ip st rqs))"
proof (induction rqs arbitrary: st)
  case Nil
  then show ?case by simp
next
  case (Cons rq rqs)
  obtain out st1 where it: "main_iteration ip st rq = (out, st1)" by fastforce
  have "reachable ip st1" using Cons.prems it by (rule reachable.iteration)
  then show ?case using Cons.IH it by (simp add: split_def Let_def)
qed

lemma reachable_demo: "reachable demo_ip demo_st"
  by (rule reachable.start [of _ "files demo_st"]) (simp add: main_start_def demo_st_def)

theorem reachable_counter_bounds_witness:
  "ip_attempts (info (snd (main_loop demo_ip demo_st [demo_encrypt, demo_wrong])))
     [''out.bin'', demo_ip] = Some 1 \<and> unat ((1::byte) + 1) = 2"
proof -
  let ?st = "snd (main_loop demo_ip demo_st [demo_encrypt, demo_wrong])"
  have r: "reachable demo_ip ?st" by (intro reachable_main_loop reachable_demo)
  have a: "ip_attempts (info ?st) [''out.bin'', demo_ip] = Some 1" by code_simp
  show ?thesis using reachable_counter_bounds [OF r a] a by simp
qed

theorem reachable_bans_exact_witness:
  "attempts_of (info (snd (main_loop demo_ip demo_st [demo_encrypt, demo_wrong]))) ''out.bin'' demo_ip = 1
   \<and> banned_ip (info (snd (main_loop demo_ip demo_st [demo_encrypt, demo_wrong]))) ''out.bin'' = None"
proof -
  let ?st = "snd (main_loop demo_ip demo_st [demo_encrypt, demo_wrong])"
  have r: "reachable demo_ip ?st" by (intro reachable_main_loop reachable_demo)
  have a: "attempts_of (info ?st) ''out.bin'' demo_ip = 1" by code_simp
  show ?thesis using reachable_bans_exact [OF r, of "''out.bin''"] a by simp
qed

theorem zero_key_rejected_witness:
  "read_key ''0'' = Inr 0
   \<and> fst (main_iteration demo_ip demo_st (req ''a.txt'' ''0'' ''x.txt'')) = UselessKey
   \<and> snd (main_iteration demo_ip demo_st (req ''a.txt'' ''0'' ''x.txt'')) = demo_st"
proof -
  let ?rq = "req ''a.txt'' ''0'' ''x.txt''"
  have h1: "read_key (key_line ?rq) = Inr 0" by code_simp
  have h2: "main_iteration demo_ip demo_st ?rq
      = (fst (main_iteration demo_ip demo_st ?rq), snd (main_iteration demo_ip demo_st ?rq))" by simp
  have o: "fst (main_iteration demo_ip demo_st ?rq) = UselessKey" by code_simp
  show ?thesis using zero_key_rejected [OF h1 h2] o h1 by (simp add: req_def)
qed

theorem error_outcomes_frame_witness:
  "fst (main_iteration demo_ip (snd (main_iteration demo_ip demo_st demo_encrypt)) demo_wrong) = IncorrectKey
   \<and> files (snd (main_iteration demo_ip (snd (main_iteration demo_ip demo_st demo_encrypt)) demo_wrong))
     = files (snd (main_iteration demo_ip demo_st demo_encrypt))"
proof -
  let ?s1 = "snd (main_iteration demo_ip demo_st demo_encrypt)"
  have h: "main_iteration demo_ip ?s1 demo_wrong
      = (fst (main_iteration demo_ip ?s1 demo_wrong), snd (main_iteration demo_ip ?s1 demo_wrong))" by simp
  have o: "fst (main_iteration demo_ip ?s1 demo_wrong) = IncorrectKey" by code_simp
  show ?thesis using error_outcomes_frame [OF h] o by simp
qed

theorem ban_is_permanent_witness:
  "fst (main_loop demo_ip (snd (main_loop demo_ip demo_st [demo_encrypt, demo_wrong, demo_wrong, demo_wrong]))
     [demo_wrong]) ! 0 = AccessDenied"
proof -
  let ?s4 = "snd (main_loop demo_ip demo_st [demo_encrypt, demo_wrong, demo_wrong, demo_wrong])"
  have h1: "access_denied (info ?s4) ''out.bin'' demo_ip" by code_simp
  have h2: "contains_key (files ?s4) ''out.bin''" by code_simp
  have h3: "main_loop demo_ip ?s4 [demo_wrong]
      = (fst (main_loop demo_ip ?s4 [demo_wrong]), snd (main_loop demo_ip ?s4 [demo_wrong]))" by simp
  have h5: "get_input (input_line ([demo_wrong] ! 0)) = ''out.bin''" by code_simp
  have h6: "open_error ([demo_wrong] ! 0) = None" by code_simp
  show ?thesis using ban_is_permanent [OF h1 h2 h3 _ h5 h6] by simp
qed

theorem three_wrong_keys_then_denied_witness:
  "fst (main_loop demo_ip (snd (main_iteration demo_ip demo_st demo_encrypt))
      [demo_wrong, demo_wrong, demo_wrong, demo_wrong])
   = [IncorrectKey, IncorrectKey, IncorrectKey, AccessDenied]"
proof -
  let ?s1 = "snd (main_iteration demo_ip demo_st demo_encrypt)"
  have h1: "get_input (input_line demo_wrong) = ''out.bin''" by code_simp
  have h2: "open_error demo_wrong = None" by code_simp
  have h3: "contains_key (files ?s1) ''out.bin''" by code_simp
  have h4: "read_key (key_line demo_wrong) = Inr 8" by code_simp
  have h6: "encrypted_file (info ?s1) ''out.bin'' = Some 7" by code_simp
  have h8: "ip_attempts (info ?s1) [''out.bin'', demo_ip] = None" by code_simp
  have h9: "demo_ip \<notin> set (banned_list (info ?s1) ''out.bin'')" by code_simp
  show ?thesis using three_wrong_keys_then_denied [OF h1 h2 h3 h4 _ h6 _ h8 h9] by simp
qed

theorem encrypt_decrypt_roundtrip_witness:
  "fst (main_loop demo_ip demo_st [demo_encrypt, req ''out.bin'' ''7'' ''plain.txt'']) = [Processed, Processed]
   \<and> files (snd (main_loop demo_ip demo_st [demo_encrypt, req ''out.bin'' ''7'' ''plain.txt''])) ''plain.txt''
     = Some [72, 105]"
proof -
  let ?rq2 = "req ''out.bin'' ''7'' ''plain.txt''"
  have h1: "files demo_st ''a.txt'' = Some [72, 105]" by (simp add: demo_st_def)
  have h2: "\<not> contains_key (encrypted_file (info demo_st)) ''a.txt''"
    by (simp add: demo_st_def file_data_new_def)
  have h3: "read_key (key_line demo_encrypt) = Inr 7" by code_simp
  have h4: "read_key (key_line ?rq2) = Inr 7" by code_simp
  have h6: "get_input (input_line demo_encrypt) = ''a.txt''" by code_simp
  have h7: "get_input (output_line demo_encrypt) = ''out.bin''" by code_simp
  have h8: "get_input (input_line ?rq2) = ''out.bin''" by code_simp
  have h9: "banned_ip (info demo_st) ''out.bin'' = None" by (simp add: demo_st_def file_data_new_def)
  have h10: "no_io_errors demo_encrypt" by code_simp
  have h11: "no_io_errors ?rq2" by code_simp
  have o: "get_input (output_line ?rq2) = ''plain.txt''" by code_simp
  show ?thesis using encrypt_decrypt_roundtrip [OF h1 h2 h3 h4 _ h6 h7 h8 h9 h10 h11] o by simp
qed

theorem processed_effect_witness:
  "fst (main_iteration demo_ip demo_st demo_encrypt) = Processed
   \<and> files (snd (main_iteration demo_ip demo_st demo_encrypt)) ''out.bin''
     = Some (process_file_data [72, 105] 7)
   \<and> encrypted_file (info (snd (main_iteration demo_ip demo_st demo_encrypt))) ''out.bin'' = Some 7"
proof -
  have o: "fst (main_iteration demo_ip demo_st demo_encrypt) = Processed" by code_simp
  then have h: "main_iteration demo_ip demo_st demo_encrypt
      = (Processed, snd (main_iteration demo_ip demo_st demo_encrypt))"
    by (metis prod.collapse)
  have i: "get_input (input_line demo_encrypt) = ''a.txt''" by code_simp
  have u: "get_input (output_line demo_encrypt) = ''out.bin''" by code_simp
  have k: "read_key (key_line demo_encrypt) = Inr 7" by code_simp
  have f: "files demo_st ''a.txt'' = Some [72, 105]" by (simp add: demo_st_def)
  have r: "\<not> contains_key (encrypted_file (info demo_st)) ''a.txt''"
    by (simp add: demo_st_def file_data_new_def)
  have w: "write_error demo_encrypt = None" by (simp add: demo_encrypt_def req_def)
  show ?thesis using processed_effect [OF h] o i u k f r w by auto
qed

theorem write_error_only_large_witness:
  "fst (main_iteration demo_ip (demo_st\<lparr>files := [''big'' \<mapsto> replicate 8192 0]\<rparr>)
      (req ''big'' ''7'' ''out.bin''\<lparr>write_error := Some (0, OtherIoError)\<rparr>)) = WriteError OtherIoError
   \<and> length (replicate 8192 (0::byte)) = 8192"
proof -
  let ?st = "demo_st\<lparr>files := [''big'' \<mapsto> replicate 8192 0]\<rparr>"
  let ?rq = "req ''big'' ''7'' ''out.bin''\<lparr>write_error := Some (0, OtherIoError)\<rparr>"
  have o: "fst (main_iteration demo_ip ?st ?rq) = WriteError OtherIoError"
    by (simp add: main_iteration_def process_and_write_def open_file_def req_def demo_st_def
        get_input_ascii_simps read_key_def parse_u8_digits_def
        can_not_overflow_u8_def to_digit_def access_denied_def incorrect_key_def file_data_new_def
        buf_writer_write_all_def default_buf_size_def Let_def process_file_data_map)
  then have h: "main_iteration demo_ip ?st ?rq = (WriteError OtherIoError, snd (main_iteration demo_ip ?st ?rq))"
    by (metis prod.collapse)
  show ?thesis using write_error_only_large [OF h] o by simp
qed

theorem failed_write_registers_witness:
  "fst (main_iteration demo_ip demo_st (demo_encrypt\<lparr>write_error := Some (1, OtherIoError)\<rparr>))
     = Processed
   \<and> files (snd (main_iteration demo_ip demo_st (demo_encrypt\<lparr>write_error := Some (1, OtherIoError)\<rparr>)))
       ''out.bin'' = Some (take 1 (process_file_data [72, 105] 7))
   \<and> encrypted_file (info (snd (main_iteration demo_ip demo_st
       (demo_encrypt\<lparr>write_error := Some (1, OtherIoError)\<rparr>)))) ''out.bin'' = Some 7"
proof -
  let ?rq = "demo_encrypt\<lparr>write_error := Some (1, OtherIoError)\<rparr>"
  have i: "get_input (input_line ?rq) = ''a.txt''" by code_simp
  have o: "get_input (output_line ?rq) = ''out.bin''" by code_simp
  have f: "files demo_st ''a.txt'' = Some [72, 105]" by (simp add: demo_st_def)
  have r: "\<not> contains_key (encrypted_file (info demo_st)) ''a.txt''"
    by (simp add: demo_st_def file_data_new_def)
  have k: "read_key (key_line ?rq) = Inr 7" by code_simp
  have e: "open_error ?rq = None" "read_error ?rq = None" "create_error ?rq = None"
    by (simp_all add: demo_encrypt_def req_def)
  have l: "length [72, 105 :: byte] < default_buf_size" by (simp add: default_buf_size_def)
  show ?thesis
    using failed_write_registers [OF i f e(1) r k _ e(2,3) _ l, of 1 OtherIoError] o by simp
qed

end
