(* ===== verification/Stdin.thy ===== *)
theory Stdin
  imports Session
begin

text \<open>
  Standard input as the process reads it. The bytes not read yet are a string;
  \<open>read_line\<close> (line 11) takes the bytes up to and including the next new line, or all
  that is left at the end of input, where it returns an empty line. Rust checks that the
  bytes read are UTF-8 and returns an error otherwise, which \<open>unwrap\<close> turns into a
  panic: the value \<open>StdinNotUtf8\<close>. \<open>main_iteration_stdin\<close> is one iteration of the loop
  of \<open>main\<close> with the three prompts read from standard input when the code reaches them:
  the key only after the file was opened and the address not denied, the output name
  only after the key was accepted and the input read. The file system's answers are a
  \<open>fs_reply\<close>. \<open>run_stdin\<close> runs iterations until standard input is used up; the code
  itself never stops there, but every later iteration reads empty lines and changes
  nothing (\<open>main_iteration_stdin_eof\<close>), so the states the loop reaches are those
  \<open>run_stdin\<close> reaches.
\<close>

datatype loop_panic = StdinNotUtf8

record fs_reply =
  reply_open :: "io_error option"
  reply_read :: "io_error option"
  reply_create :: "io_error option"
  reply_write :: "(nat \<times> io_error) option"

text \<open>\<open>BufRead::read_until(b'\n')\<close>: the bytes up to and including the first new line,
  and the rest.\<close>

definition read_until_newline :: "string \<Rightarrow> string \<times> string" where
  "read_until_newline stdin =
     (case dropWhile (\<lambda>c. c \<noteq> CHR ''\<newline>'') stdin of
        [] \<Rightarrow> (stdin, [])
      | nl # rest \<Rightarrow> (takeWhile (\<lambda>c. c \<noteq> CHR ''\<newline>'') stdin @ [nl], rest))"

text \<open>\<open>stdin().read_line(&mut buffer).unwrap()\<close> on an empty buffer.\<close>

definition read_line :: "string \<Rightarrow> loop_panic + string \<times> string" where
  "read_line stdin =
     (case read_until_newline stdin of
        (bytes, rest) \<Rightarrow> if utf8_chars bytes = None then Inl StdinNotUtf8 else Inr (bytes, rest))"

text \<open>\<open>get_input\<close> (lines 6--14) reading its line from standard input.\<close>

definition get_input_stdin :: "string \<Rightarrow> loop_panic + string \<times> string" where
  "get_input_stdin stdin =
     (case read_line stdin of
        Inl p \<Rightarrow> Inl p
      | Inr (buffer, rest) \<Rightarrow> Inr (get_input buffer, rest))"

text \<open>Lines 118--148 with the output name read from standard input: the input is read,
  transformed, and only then the output name is asked for.\<close>

definition process_and_write_stdin ::
  "session \<Rightarrow> fs_reply \<Rightarrow> string \<Rightarrow> byte list \<Rightarrow> byte \<Rightarrow> string
   \<Rightarrow> loop_panic + cycle_outcome \<times> session \<times> string" where
  "process_and_write_stdin st fs input_file_name input_data key stdin =
     (case reply_read fs of
        Some err \<Rightarrow> Inr (ReadError err, st, stdin)
      | None \<Rightarrow>
          (let processed_data = process_file_data input_data key in
           case get_input_stdin stdin of
             Inl p \<Rightarrow> Inl p
           | Inr (output_file_name, stdin') \<Rightarrow>
               (case reply_create fs of
                  Some err \<Rightarrow> Inr (CantCreate err, st, stdin')
                | None \<Rightarrow>
                    (let created = (files st)(output_file_name \<mapsto> []);
                         info' = (if \<not> contains_key (encrypted_file (info st)) input_file_name
                                  then add_encrypted_file (info st) output_file_name key
                                  else info st)
                     in case buf_writer_write_all processed_data (reply_write fs) of
                          (Some err, written) \<Rightarrow>
                            Inr (WriteError err,
                                 st\<lparr>files := created(output_file_name \<mapsto> written), info := info'\<rparr>,
                                 stdin')
                        | (None, written) \<Rightarrow>
                            Inr (Processed,
                                 st\<lparr>files := created(output_file_name \<mapsto> written), info := info'\<rparr>,
                                 stdin')))))"

text \<open>One iteration of the loop (lines 71--148), the prompts read in the code's order.\<close>

definition main_iteration_stdin ::
  "string \<Rightarrow> session \<Rightarrow> fs_reply \<Rightarrow> string \<Rightarrow> loop_panic + cycle_outcome \<times> session \<times> string" where
  "main_iteration_stdin user_ip st fs stdin =
     (case get_input_stdin stdin of
        Inl p \<Rightarrow> Inl p
      | Inr (input_file_name, stdin1) \<Rightarrow>
          (case open_file (files st) (reply_open fs) input_file_name of
             Inl err \<Rightarrow> Inr (CantOpen err, st, stdin1)
           | Inr input_file \<Rightarrow>
               if access_denied (info st) input_file_name user_ip then Inr (AccessDenied, st, stdin1)
               else
                 (case get_input_stdin stdin1 of
                    Inl p \<Rightarrow> Inl p
                  | Inr (key_text, stdin2) \<Rightarrow>
                      (case parse_u8 key_text of
                         Inl err \<Rightarrow> Inr (BadKey (report_key_error err), st, stdin2)
                       | Inr key \<Rightarrow>
                           if key = 0 then Inr (UselessKey, st, stdin2)
                           else if incorrect_key (info st) input_file_name key
                           then Inr (IncorrectKey,
                                     st\<lparr>info := change_ip_attempts (info st) input_file_name user_ip\<rparr>,
                                     stdin2)
                           else process_and_write_stdin st fs input_file_name input_file key stdin2))))"

text \<open>The lines an iteration has read when it reports an outcome.\<close>

fun lines_read :: "cycle_outcome \<Rightarrow> nat" where
  "lines_read (CantOpen _) = 1"
| "lines_read AccessDenied = 1"
| "lines_read (BadKey _) = 2"
| "lines_read UselessKey = 2"
| "lines_read IncorrectKey = 2"
| "lines_read (ReadError _) = 2"
| "lines_read _ = 3"

fun read_lines :: "nat \<Rightarrow> string \<Rightarrow> string list \<times> string" where
  "read_lines 0 stdin = ([], stdin)"
| "read_lines (Suc n) stdin =
     (case read_until_newline stdin of
        (line, rest) \<Rightarrow> (case read_lines n rest of (lines, rest') \<Rightarrow> (line # lines, rest')))"

definition request_of :: "fs_reply \<Rightarrow> string list \<Rightarrow> request" where
  "request_of fs lines =
     \<lparr>input_line = lines ! 0, open_error = reply_open fs, key_line = lines ! 1,
      read_error = reply_read fs, output_line = lines ! 2, create_error = reply_create fs,
      write_error = reply_write fs\<rparr>"

text \<open>The file system's answers a request carries.\<close>

definition reply_of :: "request \<Rightarrow> fs_reply" where
  "reply_of rq = \<lparr>reply_open = open_error rq, reply_read = read_error rq,
                  reply_create = create_error rq, reply_write = write_error rq\<rparr>"

text \<open>The file system that answers every request.\<close>

definition fs_ok :: fs_reply where
  "fs_ok = \<lparr>reply_open = None, reply_read = None, reply_create = None, reply_write = None\<rparr>"

definition demo_stdin :: string where
  "demo_stdin = ''a.txt\<newline>7\<newline>out.bin\<newline>''"

text \<open>The loop (lines 70--150) run until standard input is used up, the file system's
  answers given per iteration: \<open>Inl\<close> when the process panics, otherwise the state and the
  number of iterations when no input is left. From there on every iteration reads empty
  lines (see \<open>main_iteration_stdin_eof\<close>). The recursion ends because every iteration
  consumes at least one byte of a non-empty input.\<close>

function run_stdin ::
  "string \<Rightarrow> (nat \<Rightarrow> fs_reply) \<Rightarrow> nat \<Rightarrow> session \<Rightarrow> string \<Rightarrow> loop_panic + session \<times> nat" where
  "run_stdin user_ip fs n st stdin =
     (if stdin = [] then Inr (st, n)
      else case main_iteration_stdin user_ip st (fs n) stdin of
             Inl p \<Rightarrow> Inl p
           | Inr (out, st', rest) \<Rightarrow> run_stdin user_ip fs (Suc n) st' rest)"
  by pat_completeness auto

lemma read_lines_3:
  assumes "read_until_newline stdin = (l1, s1)" "read_until_newline s1 = (l2, s2)"
    "read_until_newline s2 = (l3, s3)"
  shows "read_lines 1 stdin = ([l1], s1) \<and> read_lines 2 stdin = ([l1, l2], s2)
    \<and> read_lines 3 stdin = ([l1, l2, l3], s3)"
  using assms by (simp add: numeral_eq_Suc)

lemma get_input_stdin_eq:
  "read_until_newline s = (l, r) \<Longrightarrow>
   get_input_stdin s = (if utf8_chars l = None then Inl StdinNotUtf8 else Inr (get_input l, r))"
  by (simp add: get_input_stdin_def read_line_def)

lemma lines_read_pos: "1 \<le> lines_read out"
  by (cases out) simp_all

lemma process_and_write_lines:
  "process_and_write st rq f d key = (out, st') \<Longrightarrow>
   lines_read out = (if read_error rq = None then 3 else 2)"
  by (auto simp: process_and_write_def Let_def split: option.splits prod.splits)

lemma process_and_write_stdin_eq:
  assumes u3: "read_until_newline s2 = (l3, s3)"
    and rq: "output_line rq = l3" "read_error rq = reply_read fs" "create_error rq = reply_create fs"
      "write_error rq = reply_write fs"
    and pw: "process_and_write st rq f d key = (out, st')"
  shows "process_and_write_stdin st fs f d key s2 =
    (if lines_read out = 2 then Inr (out, st', s2)
     else if utf8_chars l3 = None then Inl StdinNotUtf8 else Inr (out, st', s3))"
proof (cases "reply_read fs")
  case (Some e)
  with rq pw show ?thesis by (auto simp: process_and_write_def process_and_write_stdin_def)
next
  case None
  show ?thesis
  proof (cases "utf8_chars l3 = None")
    case True
    with None rq pw show ?thesis
      by (auto simp: process_and_write_stdin_def get_input_stdin_eq [OF u3] dest: process_and_write_lines)
  next
    case False
    with None rq pw show ?thesis
      by (auto simp: process_and_write_stdin_def get_input_stdin_eq [OF u3] process_and_write_def
          Let_def split: option.splits prod.splits)
  qed
qed

lemma read_lines_Suc_Cons:
  "read_until_newline s = (l, r) \<Longrightarrow> read_lines (Suc n) s = (l # fst (read_lines n r), snd (read_lines n r))"
  by (simp add: split_def)

lemma main_iteration_stdin_eq:
  "main_iteration_stdin ip st fs stdin =
     (case main_iteration ip st (request_of fs (fst (read_lines 3 stdin))) of
        (out, st') \<Rightarrow>
          (case read_lines (lines_read out) stdin of
             (used, rest) \<Rightarrow>
               if list_all (\<lambda>l. utf8_chars l \<noteq> None) used then Inr (out, st', rest)
               else Inl StdinNotUtf8))"
  (is "?lhs = ?rhs")
proof -
  obtain l1 s1 where u1: "read_until_newline stdin = (l1, s1)" by fastforce
  obtain l2 s2 where u2: "read_until_newline s1 = (l2, s2)" by fastforce
  obtain l3 s3 where u3: "read_until_newline s2 = (l3, s3)" by fastforce
  note r = read_lines_3 [OF u1 u2 u3]
  define rq where "rq = request_of fs (fst (read_lines 3 stdin))"
  have rq_fields: "input_line rq = l1" "open_error rq = reply_open fs" "key_line rq = l2"
    "read_error rq = reply_read fs" "output_line rq = l3" "create_error rq = reply_create fs"
    "write_error rq = reply_write fs"
    using r by (simp_all add: rq_def request_of_def)
  obtain out st' where mi: "main_iteration ip st rq = (out, st')" by fastforce
  have rhs: "?rhs = (case read_lines (lines_read out) stdin of (used, rest) \<Rightarrow>
      if list_all (\<lambda>l. utf8_chars l \<noteq> None) used then Inr (out, st', rest) else Inl StdinNotUtf8)"
    using mi by (simp add: rq_def)
  have n: "lines_read out = 1 \<or> lines_read out = 2 \<or> lines_read out = 3"
    by (cases out) simp_all
  have used: "read_lines (lines_read out) stdin =
      (if lines_read out = 1 then ([l1], s1) else if lines_read out = 2 then ([l1, l2], s2)
       else ([l1, l2, l3], s3))"
    using n r by auto
  let ?f = "get_input l1"
  show ?thesis
  proof (cases "utf8_chars l1 = None")
    case True
    then show ?thesis using used rhs
      by (simp add: main_iteration_stdin_def get_input_stdin_eq [OF u1])
  next
    case v1: False
    show ?thesis
    proof (cases "open_file (files st) (reply_open fs) ?f")
      case (Inl err)
      then have "out = CantOpen err \<and> st' = st"
        using mi main_iteration_open [of st rq err ip] by (simp add: rq_fields)
      with Inl v1 show ?thesis using used rhs
        by (simp add: main_iteration_stdin_def get_input_stdin_eq [OF u1])
    next
      case (Inr d)
      show ?thesis
      proof (cases "access_denied (info st) ?f ip")
        case True
        then have "out = AccessDenied \<and> st' = st"
          using mi main_iteration_denied [of st rq d ip] Inr by (simp add: rq_fields)
        with Inr True v1 show ?thesis using used rhs
          by (simp add: main_iteration_stdin_def get_input_stdin_eq [OF u1])
      next
        case nd: False
        have allowed: "main_iteration ip st rq =
          (case parse_u8 (get_input l2) of
             Inl err \<Rightarrow> (BadKey (report_key_error err), st)
           | Inr key \<Rightarrow>
               if key = 0 then (UselessKey, st)
               else if incorrect_key (info st) ?f key
               then (IncorrectKey, st\<lparr>info := change_ip_attempts (info st) ?f ip\<rparr>)
               else process_and_write st rq ?f d key)"
          using main_iteration_allowed [of st rq d ip, unfolded rq_fields] Inr nd by (simp add: read_key_def)
        have lhs: "?lhs = (case get_input_stdin s1 of Inl p \<Rightarrow> Inl p
          | Inr (key_text, stdin2) \<Rightarrow>
              (case parse_u8 key_text of
                 Inl err \<Rightarrow> Inr (BadKey (report_key_error err), st, stdin2)
               | Inr key \<Rightarrow>
                   if key = 0 then Inr (UselessKey, st, stdin2)
                   else if incorrect_key (info st) ?f key
                   then Inr (IncorrectKey, st\<lparr>info := change_ip_attempts (info st) ?f ip\<rparr>, stdin2)
                   else process_and_write_stdin st fs ?f d key stdin2))"
        proof -
          have "get_input_stdin stdin = Inr (?f, s1)" using v1 by (simp add: get_input_stdin_eq [OF u1])
          with Inr nd show ?thesis by (simp add: main_iteration_stdin_def)
        qed
        have two: "2 \<le> lines_read out"
          using mi allowed by (auto split: sum.splits if_splits dest: process_and_write_lines)
        show ?thesis
        proof (cases "utf8_chars l2 = None")
          case True
          with two show ?thesis using lhs used rhs v1 by (simp add: get_input_stdin_eq [OF u2])
        next
          case v2: False
          have g2: "get_input_stdin s1 = Inr (get_input l2, s2)"
            using v2 by (simp add: get_input_stdin_eq [OF u2])
          show ?thesis
          proof (cases "parse_u8 (get_input l2)")
            case (Inl err)
            with mi allowed have "out = BadKey (report_key_error err) \<and> st' = st" by simp
            with Inl v1 v2 show ?thesis using lhs used rhs by (simp add: g2)
          next
            case (Inr key)
            show ?thesis
            proof (cases "key = 0 \<or> incorrect_key (info st) ?f key")
              case True
              then have "(out = UselessKey \<and> st' = st \<and> key = 0) \<or> (out = IncorrectKey
                \<and> st' = st\<lparr>info := change_ip_attempts (info st) ?f ip\<rparr> \<and> key \<noteq> 0
                \<and> incorrect_key (info st) ?f key)"
                using Inr mi allowed by (auto split: if_splits)
              with Inr v1 v2 show ?thesis using lhs used rhs by (auto simp: g2)
            next
              case False
              then have pw: "process_and_write st rq ?f d key = (out, st')"
                using Inr mi allowed by simp
              have "process_and_write_stdin st fs ?f d key s2 =
                (if lines_read out = 2 then Inr (out, st', s2)
                 else if utf8_chars l3 = None then Inl StdinNotUtf8 else Inr (out, st', s3))"
                using u3 rq_fields(5,4,6,7) pw by (rule process_and_write_stdin_eq)
              with False Inr v1 v2 two show ?thesis using lhs used rhs
                by (simp add: g2)
            qed
          qed
        qed
      qed
    qed
  qed
qed

lemma read_until_newline_split:
  "read_until_newline s = (l, r) \<Longrightarrow> s = l @ r \<and> (s \<noteq> [] \<longrightarrow> l \<noteq> [])"
proof (cases "dropWhile (\<lambda>c. c \<noteq> CHR ''\<newline>'') s")
  case Nil
  then show "read_until_newline s = (l, r) \<Longrightarrow> s = l @ r \<and> (s \<noteq> [] \<longrightarrow> l \<noteq> [])"
    by (simp add: read_until_newline_def)
next
  case (Cons nl rest)
  have "s = takeWhile (\<lambda>c. c \<noteq> CHR ''\<newline>'') s @ dropWhile (\<lambda>c. c \<noteq> CHR ''\<newline>'') s"
    by simp
  with Cons show "read_until_newline s = (l, r) \<Longrightarrow> s = l @ r \<and> (s \<noteq> [] \<longrightarrow> l \<noteq> [])"
    by (auto simp: read_until_newline_def)
qed

lemma read_lines_split:
  "read_lines n s = (ls, r) \<Longrightarrow> s = concat ls @ r \<and> length ls = n \<and> length r \<le> length s
     \<and> (s \<noteq> [] \<longrightarrow> 0 < n \<longrightarrow> length r < length s)"
proof (induction n arbitrary: s ls r)
  case 0
  then show ?case by simp
next
  case (Suc n)
  obtain l s1 where u: "read_until_newline s = (l, s1)" by fastforce
  obtain ls' r' where ls: "read_lines n s1 = (ls', r')" by fastforce
  have eq: "ls = l # ls'" "r = r'" using Suc.prems u ls by simp_all
  have ih: "s1 = concat ls' @ r' \<and> length ls' = n \<and> length r' \<le> length s1"
    using Suc.IH [OF ls] by simp
  have sp: "s = l @ s1" "s \<noteq> [] \<longrightarrow> l \<noteq> []" using read_until_newline_split [OF u] by blast+
  have "length s = length l + length s1" using sp(1) by simp
  moreover have "s \<noteq> [] \<longrightarrow> 0 < length l" using sp(2) by simp
  ultimately have "length r' \<le> length s \<and> (s \<noteq> [] \<longrightarrow> length r' < length s)"
    using ih by linarith
  with ih sp(1) eq show ?case by simp
qed

lemma get_input_stdin_rest:
  "get_input_stdin s = Inr (x, r) \<Longrightarrow> length r \<le> length s \<and> (s \<noteq> [] \<longrightarrow> length r < length s)"
proof -
  assume g: "get_input_stdin s = Inr (x, r)"
  obtain l r' where u: "read_until_newline s = (l, r')" by fastforce
  with g have "r = r'" by (simp add: get_input_stdin_eq split: if_splits)
  moreover have sp: "s = l @ r' \<and> (s \<noteq> [] \<longrightarrow> l \<noteq> [])" using u by (rule read_until_newline_split)
  then have "length s = length l + length r'" by (metis length_append)
  moreover have "s \<noteq> [] \<longrightarrow> 0 < length l" using sp by blast
  ultimately show ?thesis by (cases "s = []") auto
qed

lemma process_and_write_stdin_rest:
  assumes "process_and_write_stdin st fs f d key s = Inr (out, st', r)"
  shows "length r \<le> length s"
proof (cases "reply_read fs")
  case (Some e)
  with assms show ?thesis by (simp add: process_and_write_stdin_def)
next
  case None
  show ?thesis
  proof (cases "get_input_stdin s")
    case (Inl p)
    with None assms show ?thesis by (simp add: process_and_write_stdin_def)
  next
    case (Inr v)
    obtain name s' where v: "v = (name, s')" by fastforce
    have "r = s'"
      using assms None Inr v
      by (simp add: process_and_write_stdin_def Let_def split: option.splits prod.splits)
    then show ?thesis using get_input_stdin_rest [of s name s'] Inr v by simp
  qed
qed

lemma main_iteration_stdin_consumes:
  assumes "main_iteration_stdin ip st fs stdin = Inr (out, st', rest)" and "stdin \<noteq> []"
  shows "length rest < length stdin"
proof -
  obtain x s1 where g: "get_input_stdin stdin = Inr (x, s1)"
    using assms(1) by (cases "get_input_stdin stdin") (auto simp: main_iteration_stdin_def)
  have lt: "length s1 < length stdin" using get_input_stdin_rest [OF g] assms(2) by simp
  have "length rest \<le> length s1"
    using assms(1) g
    by (auto simp: main_iteration_stdin_def split: sum.splits if_splits
        dest!: get_input_stdin_rest process_and_write_stdin_rest)
  with lt show ?thesis by simp
qed

termination run_stdin
  by (relation "measure (\<lambda>(ip, fs, n, st, stdin). length stdin)")
     (auto dest: main_iteration_stdin_consumes)

lemma get_input_Nil: "get_input [] = []"
  by (simp add: get_input_ascii_simps)

lemma read_until_newline_Nil: "read_until_newline [] = ([], [])"
  by (simp add: read_until_newline_def)

lemma main_iteration_stdin_reachable:
  assumes "reachable ip st" and "main_iteration_stdin ip st fs stdin = Inr (out, st', rest)"
  shows "reachable ip st'"
proof -
  obtain used rest' where rl: "read_lines (lines_read out) stdin = (used, rest')" by fastforce
  have "main_iteration ip st (request_of fs (fst (read_lines 3 stdin))) = (out, st')"
    using assms(2) rl by (simp add: main_iteration_stdin_eq split: prod.splits if_splits)
  with assms(1) show ?thesis by (rule reachable.iteration)
qed

declare run_stdin.simps [simp del]

lemma run_stdin_bound:
  "run_stdin ip fs k st stdin = Inr (st', n) \<Longrightarrow> n \<le> k + length stdin"
proof (induction ip fs k st stdin rule: run_stdin.induct)
  case (1 ip fs k st stdin)
  show ?case
  proof (cases "stdin = []")
    case True
    with "1.prems" show ?thesis by (simp add: run_stdin.simps)
  next
    case False
    with "1.prems" obtain out st1 rest where it: "main_iteration_stdin ip st (fs k) stdin = Inr (out, st1, rest)"
      and r: "run_stdin ip fs (Suc k) st1 rest = Inr (st', n)"
      by (auto simp: run_stdin.simps [of ip fs k st stdin] split: sum.splits prod.splits)
    have "n \<le> Suc k + length rest" using "1.IH" [OF False it refl refl r] .
    moreover have "length rest < length stdin" using main_iteration_stdin_consumes [OF it False] .
    ultimately show ?thesis by simp
  qed
qed

lemma run_stdin_reachable:
  "run_stdin ip fs k st stdin = Inr (st', n) \<Longrightarrow> reachable ip st \<Longrightarrow> reachable ip st'"
proof (induction ip fs k st stdin rule: run_stdin.induct)
  case (1 ip fs k st stdin)
  show ?case
  proof (cases "stdin = []")
    case True
    with "1.prems" show ?thesis by (simp add: run_stdin.simps)
  next
    case False
    with "1.prems" obtain out st1 rest where it: "main_iteration_stdin ip st (fs k) stdin = Inr (out, st1, rest)"
      and r: "run_stdin ip fs (Suc k) st1 rest = Inr (st', n)"
      by (auto simp: run_stdin.simps [of ip fs k st stdin] split: sum.splits prod.splits)
    have "reachable ip st1" using "1.prems"(2) it by (rule main_iteration_stdin_reachable)
    then show ?thesis using "1.IH" [OF False it refl refl r] by simp
  qed
qed

lemma run_stdin_main_loop:
  "run_stdin ip fs k st stdin = Inr (st', n) \<Longrightarrow>
   \<exists>rqs. n = k + length rqs \<and> snd (main_loop ip st rqs) = st'
     \<and> (\<forall>i < length rqs. reply_of (rqs ! i) = fs (k + i))"
proof (induction ip fs k st stdin arbitrary: st' n rule: run_stdin.induct)
  case (1 ip fs k st stdin)
  show ?case
  proof (cases "stdin = []")
    case True
    with "1.prems" have "st' = st" "n = k" by (simp_all add: run_stdin.simps)
    then show ?thesis by (intro exI [of _ "[]"]) simp
  next
    case False
    with "1.prems" obtain out st1 rest where it: "main_iteration_stdin ip st (fs k) stdin = Inr (out, st1, rest)"
      and r: "run_stdin ip fs (Suc k) st1 rest = Inr (st', n)"
      by (auto simp: run_stdin.simps [of ip fs k st stdin] split: sum.splits prod.splits)
    obtain rqs where rqs: "n = Suc k + length rqs" "snd (main_loop ip st1 rqs) = st'"
      "\<forall>i < length rqs. reply_of (rqs ! i) = fs (Suc k + i)"
      using "1.IH" [OF False it refl refl r] by blast
    let ?rq = "request_of (fs k) (fst (read_lines 3 stdin))"
    have m: "main_iteration ip st ?rq = (out, st1)"
      using it by (simp add: main_iteration_stdin_eq split: prod.splits if_splits)
    have "snd (main_loop ip st (?rq # rqs)) = st'" using m rqs(2) by (simp add: split_def)
    moreover have "\<forall>i < length (?rq # rqs). reply_of ((?rq # rqs) ! i) = fs (k + i)"
    proof (intro allI impI)
      fix i assume "i < length (?rq # rqs)"
      then show "reply_of ((?rq # rqs) ! i) = fs (k + i)"
        using rqs(3) by (cases i) (simp_all add: reply_of_def request_of_def)
    qed
    ultimately show ?thesis using rqs(1) by (intro exI [of _ "?rq # rqs"]) simp
  qed
qed

text \<open>C3: on standard input a ban is permanent and enforced: after any run of the loop
  from a state where the process address is denied a file, the next iteration whose line
  names that file, and whose open succeeds, answers "Access denied", changes nothing, and
  reads only that line (the key prompt is never reached).\<close>

theorem stdin_ban_permanent:
  assumes "run_stdin ip fs k st stdin = Inr (st', n)" and "access_denied (info st) f ip"
    and "read_line s = Inr (line, rest)" and "get_input line = f"
    and "open_file (files st') (reply_open r) f = Inr d"
  shows "main_iteration_stdin ip st' r s = Inr (AccessDenied, st', rest)"
proof -
  obtain rqs where "snd (main_loop ip st rqs) = st'"
    using run_stdin_main_loop [OF assms(1)] by blast
  then have "main_loop ip st rqs = (fst (main_loop ip st rqs), st')" by (metis prod.collapse)
  then have "access_denied (info st') f ip" using assms(2) by (blast dest: main_loop_keeps_denied)
  with assms(3-5) show ?thesis by (simp add: main_iteration_stdin_def get_input_stdin_def)
qed

text \<open>C10: an iteration driven by standard input is the request-driven iteration on the
  lines it reads: it ends with the same outcome and state as main_iteration on the next
  three lines, has consumed exactly as many lines as that outcome needs (one when the open
  fails or access is denied, two up to the read of the input, three after), and panics
  exactly when one of those lines is not UTF-8.\<close>

theorem main_iteration_stdin_refines:
  "main_iteration_stdin ip st fs stdin = Inr (out, st', rest) \<longleftrightarrow>
     (main_iteration ip st (request_of fs (fst (read_lines 3 stdin))) = (out, st')
      \<and> snd (read_lines (lines_read out) stdin) = rest
      \<and> list_all (\<lambda>l. utf8_chars l \<noteq> None) (fst (read_lines (lines_read out) stdin)))"
  by (auto simp: main_iteration_stdin_eq split: prod.splits if_splits)

text \<open>C7: every state the loop reaches on standard input from a reachable state is
  reachable, so it satisfies the access-control invariant: counters between 1 and 3 for
  registered files only, and a ban vector holding the address exactly at 3.\<close>

theorem run_stdin_invariant:
  assumes "reachable ip st" and "run_stdin ip fs k st stdin = Inr (st', n)"
  shows "reachable ip st' \<and> guard_inv ip (info st')"
proof -
  have "reachable ip st'" using assms(2,1) by (rule run_stdin_reachable)
  then show ?thesis by (simp add: reachable_inv)
qed

text \<open>C17: at the end of standard input an iteration reads empty lines, so it consumes
  nothing, fails to open the empty file name and leaves the state unchanged: the loop
  repeats forever.\<close>

theorem main_iteration_stdin_eof:
  assumes "files st [] = None"
  shows "main_iteration_stdin ip st fs [] =
    Inr (CantOpen (case reply_open fs of Some e \<Rightarrow> e | None \<Rightarrow> NotFound), st, [])"
  using assms by (simp add: main_iteration_stdin_def get_input_stdin_eq [OF read_until_newline_Nil]
      utf8_chars.simps get_input_Nil open_file_def split: option.split)

theorem run_stdin_invariant_witness:
  "reachable demo_ip demo_st
   \<and> (case run_stdin demo_ip (\<lambda>_. fs_ok) 0 demo_st demo_stdin of
        Inl _ \<Rightarrow> False
      | Inr (st', n) \<Rightarrow> reachable demo_ip st' \<and> guard_inv demo_ip (info st'))"
proof -
  have ok: "\<not> isl (run_stdin demo_ip (\<lambda>_. fs_ok) 0 demo_st demo_stdin)" by code_simp
  then obtain st' n where r: "run_stdin demo_ip (\<lambda>_. fs_ok) 0 demo_st demo_stdin = Inr (st', n)"
    by (cases "run_stdin demo_ip (\<lambda>_. fs_ok) 0 demo_st demo_stdin") auto
  have "reachable demo_ip st' \<and> guard_inv demo_ip (info st')"
    using run_stdin_invariant [OF reachable_demo r] .
  with r reachable_demo show ?thesis by simp
qed

theorem main_iteration_stdin_eof_witness:
  "files demo_st [] = None
   \<and> main_iteration_stdin demo_ip demo_st fs_ok [] =
       Inr (CantOpen (case reply_open fs_ok of Some e \<Rightarrow> e | None \<Rightarrow> NotFound), demo_st, [])"
proof -
  have h: "files demo_st [] = None" by (simp add: demo_st_def)
  show ?thesis using h main_iteration_stdin_eof [OF h] by simp
qed

lemma get_input_stdin_valid:
  "get_input_stdin s = Inr (line, rest) \<Longrightarrow> \<exists>chs. utf8_chars line = Some chs"
proof -
  assume g: "get_input_stdin s = Inr (line, rest)"
  obtain l r where u: "read_until_newline s = (l, r)" by fastforce
  with g obtain chs where "utf8_chars l = Some chs" and "line = get_input l"
    by (auto simp: get_input_stdin_eq split: if_splits)
  then show ?thesis using get_input_utf8 by blast
qed

theorem stdin_ban_permanent_witness:
  "main_iteration_stdin demo_ip (demo_st\<lparr>files := [''out.bin'' \<mapsto> [1]], info := fail_n 3 demo_registered ''out.bin'' demo_ip\<rparr>) fs_ok ''out.bin\<newline>8\<newline>'' = Inr (AccessDenied, (demo_st\<lparr>files := [''out.bin'' \<mapsto> [1]], info := fail_n 3 demo_registered ''out.bin'' demo_ip\<rparr>), ''8\<newline>'')"
proof -
  have r: "run_stdin demo_ip (\<lambda>_. fs_ok) 0 (demo_st\<lparr>files := [''out.bin'' \<mapsto> [1]], info := fail_n 3 demo_registered ''out.bin'' demo_ip\<rparr>) [] = Inr ((demo_st\<lparr>files := [''out.bin'' \<mapsto> [1]], info := fail_n 3 demo_registered ''out.bin'' demo_ip\<rparr>), 0)" by (simp add: run_stdin.simps)
  have d: "access_denied (info (demo_st\<lparr>files := [''out.bin'' \<mapsto> [1]], info := fail_n 3 demo_registered ''out.bin'' demo_ip\<rparr>)) ''out.bin'' demo_ip" by code_simp
  have l: "read_line ''out.bin\<newline>8\<newline>'' = Inr (''out.bin\<newline>'', ''8\<newline>'')" by code_simp
  have g: "get_input ''out.bin\<newline>'' = ''out.bin''" by code_simp
  have o: "open_file (files (demo_st\<lparr>files := [''out.bin'' \<mapsto> [1]], info := fail_n 3 demo_registered ''out.bin'' demo_ip\<rparr>)) (reply_open fs_ok) ''out.bin'' = Inr [1]"
    by (simp add: open_file_def fs_ok_def)
  show ?thesis by (rule stdin_ban_permanent [OF r d l g o])
qed

end
