(* ===== verification/Stdout.thy ===== *)
theory Stdout
  imports Stdin
begin

text \<open>
  What the loop prints. Every iteration prints the banner (line 71), each prompt just
  before the line it reads (\<open>print!\<close> in \<open>get_input\<close>, line 7), and one message when it
  ends (the \<open>println!\<close> calls before each \<open>continue\<close>, and the blank lines after a
  successful write). Since each prompt is printed only when the code reaches it, the text
  of an iteration is the banner, the prompts of the lines its outcome needed
  (\<open>lines_read\<close>), and the outcome's message. The text of an \<open>io::Error\<close> is the
  standard library's \<open>Display\<close> of the operating system's error (Linux), modelled as
  \<open>io_error_text\<close>. The lemmas show that the message tells every outcome apart, so the
  operator can always see what happened. \<open>main_iteration_tty\<close> adds the state of
  standard output, fixed for the iteration: a broken pipe (EPIPE) makes the banner's
  \<open>println!\<close> panic before anything is read, a closed descriptor (EBADF, which the
  standard library ignores) swallows the text.
\<close>

text \<open>\<open>Display for io::Error\<close> of the OS errors the model distinguishes (Linux).\<close>

definition io_error_text :: "io_error \<Rightarrow> string" where
  "io_error_text e =
     (case e of
        NotFound \<Rightarrow> ''No such file or directory (os error 2)''
      | PermissionDenied \<Rightarrow> ''Permission denied (os error 13)''
      | IsADirectory \<Rightarrow> ''Is a directory (os error 21)''
      | OtherIoError \<Rightarrow> ''Input/output error (os error 5)'')"

text \<open>Line 71.\<close>

definition banner :: string where
  "banner = ''# # # # # # #\<newline>''"

text \<open>The prompts of lines 73, 89--90 (the backslash at the end of line 89 continues the
  literal without the line break and the indentation) and 127.\<close>

definition prompt_input :: string where
  "prompt_input = ''Enter the file name to process: ''"

definition prompt_key :: string where
  "prompt_key = ''Enter the key for file encryption/decryption(You have only 3 attempts to decrypt the file!!!): ''"

definition prompt_output :: string where
  "prompt_output = ''Enter the file name to output: ''"

text \<open>Lines 95--98.\<close>

definition key_report_text :: "key_report \<Rightarrow> string" where
  "key_report_text r =
     (case r of
        KeyMustNotBeEmpty \<Rightarrow> ''The key must not be empty''
      | EnterValidNumber \<Rightarrow> ''Enter a valid number''
      | NumberOutOfRange \<Rightarrow> ''The number must be in the range of 0 to 255''
      | ErrorReadingKey \<Rightarrow> ''Error reading the key'')"

text \<open>The message printed when an iteration ends (lines 77, 85, 95--100, 106, 113, 122,
  132, 144 and 148), given the input and output names it read; \<open>println!\<close> ends each
  with a new line.\<close>

fun outcome_message :: "string \<Rightarrow> string \<Rightarrow> cycle_outcome \<Rightarrow> string" where
  "outcome_message input_file_name output_file_name (CantOpen err) =
     ''Can't open a file '' @ [CHR 0x22] @ input_file_name @ [CHR 0x22] @ '': ''
     @ io_error_text err @ ''\<newline>\<newline>''"
| "outcome_message input_file_name output_file_name AccessDenied = ''Access denied\<newline>\<newline>''"
| "outcome_message input_file_name output_file_name (BadKey r) = key_report_text r @ ''\<newline>\<newline>''"
| "outcome_message input_file_name output_file_name UselessKey = ''0 is a useless key!!!\<newline>\<newline>''"
| "outcome_message input_file_name output_file_name IncorrectKey =
     ''Incorrect key. Please try again.\<newline>\<newline>''"
| "outcome_message input_file_name output_file_name (ReadError err) =
     ''Error reading file '' @ io_error_text err @ ''\<newline>\<newline>''"
| "outcome_message input_file_name output_file_name (CantCreate err) =
     ''Can't create a file '' @ [CHR 0x22] @ output_file_name @ [CHR 0x22] @ '': ''
     @ io_error_text err @ ''\<newline>\<newline>''"
| "outcome_message input_file_name output_file_name (WriteError err) =
     ''Error writing to output file: '' @ io_error_text err @ ''\<newline>\<newline>''"
| "outcome_message input_file_name output_file_name Processed = ''\<newline>\<newline>''"

text \<open>The text one iteration prints (lines 71--148).\<close>

definition iteration_stdout :: "string \<Rightarrow> string \<Rightarrow> cycle_outcome \<Rightarrow> string" where
  "iteration_stdout input_file_name output_file_name out =
     banner @ prompt_input @ (if 2 \<le> lines_read out then prompt_key else [])
     @ (if 3 \<le> lines_read out then prompt_output else [])
     @ outcome_message input_file_name output_file_name out"

text \<open>An iteration on standard input with the text it prints.\<close>

definition main_iteration_console ::
  "string \<Rightarrow> session \<Rightarrow> fs_reply \<Rightarrow> string \<Rightarrow> loop_panic + cycle_outcome \<times> session \<times> string \<times> string" where
  "main_iteration_console user_ip st fs stdin =
     (case main_iteration_stdin user_ip st fs stdin of
        Inl p \<Rightarrow> Inl p
      | Inr (out, st', rest) \<Rightarrow>
          (let lines = fst (read_lines 3 stdin)
           in Inr (out, st', rest, iteration_stdout (get_input (lines ! 0)) (get_input (lines ! 2)) out)))"

text \<open>Descriptor 1 at the start of an iteration. Rust's standard output treats a closed
  descriptor (EBADF) as a sink that accepts every byte (\<open>handle_ebadf\<close> in
  \<open>std::io::stdio\<close>); any other write error, such as a pipe whose reader has gone (EPIPE:
  the runtime ignores SIGPIPE), makes the \<open>println!\<close> of line 71 panic with "failed
  printing to stdout" before the iteration reads anything.\<close>

datatype stdout_state = StdoutOpen | StdoutClosed | StdoutBroken

datatype console_panic = InputPanic loop_panic | StdoutPanic

definition main_iteration_tty ::
  "stdout_state \<Rightarrow> string \<Rightarrow> session \<Rightarrow> fs_reply \<Rightarrow> string
   \<Rightarrow> console_panic + cycle_outcome \<times> session \<times> string \<times> string" where
  "main_iteration_tty so user_ip st fs stdin =
     (case so of
        StdoutBroken \<Rightarrow> Inl StdoutPanic
      | StdoutOpen \<Rightarrow> map_sum InputPanic id (main_iteration_console user_ip st fs stdin)
      | StdoutClosed \<Rightarrow>
          map_sum InputPanic (\<lambda>(out, st', rest, text). (out, st', rest, []))
            (main_iteration_console user_ip st fs stdin))"

lemma io_error_text_inj: "io_error_text e1 = io_error_text e2 \<longleftrightarrow> e1 = e2"
  by (cases e1; cases e2) (simp_all add: io_error_text_def)

lemma key_report_text_inj: "key_report_text r1 = key_report_text r2 \<longleftrightarrow> r1 = r2"
  by (cases r1; cases r2) (simp_all add: key_report_text_def)

lemma outcome_message_inj:
  "outcome_message a b o1 = outcome_message a b o2 \<longleftrightarrow> o1 = o2"
  by (cases o1; cases o2)
     (simp_all add: io_error_text_inj key_report_text_inj io_error_text_def key_report_text_def
      split: io_error.split key_report.split)

text \<open>C18: the operator can tell every outcome from the text an iteration prints: two
  iterations that read the same names print the same text only if they ended the same
  way (the same failure with the same error, the same key message, or success).\<close>

theorem iteration_stdout_determines_outcome:
  "iteration_stdout a b o1 = iteration_stdout a b o2 \<longleftrightarrow> o1 = o2"
proof (cases "lines_read o1 = lines_read o2")
  case True
  then show ?thesis by (simp add: iteration_stdout_def outcome_message_inj)
next
  case False
  then have "o1 \<noteq> o2" by auto
  moreover have "iteration_stdout a b o1 \<noteq> iteration_stdout a b o2"
    using False
    by (cases o1; cases o2)
       (simp_all add: iteration_stdout_def prompt_key_def prompt_output_def io_error_text_def
        key_report_text_def split: io_error.split key_report.split)
  ultimately show ?thesis by simp
qed

end
