(* ===== verification/Access_Guard.thy ===== *)
theory Access_Guard
  imports File_Data
begin

text \<open>
  The contract of the access guard as the specification states it (AccessGuard,
  operations \<open>is_banned\<close>, \<open>check_key\<close>, \<open>record_failure\<close>, \<open>register_key\<close>), on an
  abstract state: the key registry, a counter per (file, address) pair as an unbounded
  number, and a set of banned addresses per file. \<open>abs_fd\<close> maps the concrete
  \<open>FileData\<close> of \<^verbatim>\<open>src/main.rs\<close> to it (counters read with \<open>unat\<close>, ban vectors read as
  sets). The lemmas show that the two guards of \<open>main\<close> are \<open>is_banned\<close> and the
  \<open>WrongKey\<close> answer of \<open>check_key\<close>, that \<open>change_ip_attempts\<close> implements
  \<open>record_failure\<close> while the counter is below 255, and that \<open>add_encrypted_file\<close>
  implements \<open>register_key\<close> only on an unregistered name: on a registered one it
  replaces the key, where the contract keeps the first.
\<close>

record guard =
  registry :: "string \<rightharpoonup> byte"
  attempts :: "string \<times> string \<Rightarrow> nat"
  bans :: "string \<Rightarrow> string set"

datatype check_outcome = Accept | WrongKey | Unregistered

definition guard_init :: guard where
  "guard_init = \<lparr>registry = Map.empty, attempts = (\<lambda>_. 0), bans = (\<lambda>_. {})\<rparr>"

definition is_banned :: "guard \<Rightarrow> string \<Rightarrow> string \<Rightarrow> bool" where
  "is_banned g f a \<longleftrightarrow> registry g f \<noteq> None \<and> a \<in> bans g f"

definition check_key :: "guard \<Rightarrow> string \<Rightarrow> byte \<Rightarrow> check_outcome" where
  "check_key g f k =
     (case registry g f of None \<Rightarrow> Unregistered | Some k' \<Rightarrow> if k' = k then Accept else WrongKey)"

definition record_failure :: "guard \<Rightarrow> string \<Rightarrow> string \<Rightarrow> guard" where
  "record_failure g f a =
     (let n = attempts g (f, a) + 1
      in g\<lparr>attempts := (attempts g)((f, a) := n),
           bans := (if n = 3 then (bans g)(f := insert a (bans g f)) else bans g)\<rparr>)"

definition register_key :: "guard \<Rightarrow> string \<Rightarrow> byte \<Rightarrow> guard" where
  "register_key g f k =
     (if registry g f = None then g\<lparr>registry := (registry g)(f \<mapsto> k)\<rparr> else g)"

definition abs_fd :: "file_data \<Rightarrow> guard" where
  "abs_fd fd = \<lparr>registry = encrypted_file fd, attempts = (\<lambda>(f, a). attempts_of fd f a),
                bans = (\<lambda>f. set (banned_list fd f))\<rparr>"

subsection \<open>Refinement, operation by operation\<close>

lemma abs_fd_fields [simp]:
  "registry (abs_fd fd) = encrypted_file fd"
  "attempts (abs_fd fd) (f, a) = attempts_of fd f a"
  "bans (abs_fd fd) f = set (banned_list fd f)"
  by (simp_all add: abs_fd_def)

lemma guard_eqI:
  "registry (g :: guard) = registry h \<Longrightarrow> attempts g = attempts h \<Longrightarrow> bans g = bans h \<Longrightarrow> g = h"
  by (cases g, cases h) simp

lemma attempts_of_change_ip_attempts:
  "attempts_of fd f a < 255 \<Longrightarrow>
   attempts_of (change_ip_attempts fd f a) g b =
     (if (g, b) = (f, a) then attempts_of fd f a + 1 else attempts_of fd g b)"
  by (auto simp: attempts_of_def next_count_def unat_byte_inc split: option.splits)

lemma next_count_eq_3:
  "attempts_of fd f a < 255 \<Longrightarrow>
   next_count (ip_attempts fd [f, a]) = 3 \<longleftrightarrow> attempts_of fd f a + 1 = 3"
  by (auto simp: attempts_of_def next_count_def byte_eq_3_iff unat_byte_inc
      split: option.splits)

text \<open>
  C9: the ban test and the wrong-key test of main are the contract's is_banned and the
  WrongKey answer of check_key on the abstracted state, and FileData::new is the empty guard.
\<close>

theorem guards_refine:
  "(access_denied fd f a \<longleftrightarrow> is_banned (abs_fd fd) f a)
   \<and> (incorrect_key fd f k \<longleftrightarrow> check_key (abs_fd fd) f k = WrongKey)
   \<and> abs_fd file_data_new = guard_init"
  by (auto simp: access_denied_banned_list is_banned_def incorrect_key_def check_key_def
      abs_fd_def guard_init_def file_data_new_def banned_list_def attempts_of_def
      split: option.splits)

lemma access_denied_abs: "access_denied fd f a \<longleftrightarrow> is_banned (abs_fd fd) f a"
  by (auto simp: access_denied_banned_list is_banned_def)

lemma incorrect_key_abs: "incorrect_key fd f k \<longleftrightarrow> check_key (abs_fd fd) f k = WrongKey"
  by (auto simp: incorrect_key_def check_key_def split: option.splits)

text \<open>While the counter is below 255, \<open>change_ip_attempts\<close> is \<open>record_failure\<close>.\<close>

lemma change_ip_attempts_refines:
  assumes "attempts_of fd f a < 255"
  shows "abs_fd (change_ip_attempts fd f a) = record_failure (abs_fd fd) f a"
proof (rule guard_eqI)
  show "registry (abs_fd (change_ip_attempts fd f a)) = registry (record_failure (abs_fd fd) f a)"
    by (simp add: record_failure_def Let_def)
  show "attempts (abs_fd (change_ip_attempts fd f a)) = attempts (record_failure (abs_fd fd) f a)"
    using assms by (auto simp: record_failure_def Let_def attempts_of_change_ip_attempts)
  show "bans (abs_fd (change_ip_attempts fd f a)) = bans (record_failure (abs_fd fd) f a)"
  proof
    fix g
    show "bans (abs_fd (change_ip_attempts fd f a)) g = bans (record_failure (abs_fd fd) f a) g"
      using assms by (simp add: record_failure_def Let_def banned_list_change_ip_attempts
          next_count_eq_3)
  qed
qed

text \<open>On an unregistered name \<open>add_encrypted_file\<close> is \<open>register_key\<close>; on a registered
  one it is not (the lemma after the next shows a name whose key it replaces).\<close>

lemma add_encrypted_file_refines:
  assumes "\<not> contains_key (encrypted_file fd) f"
  shows "abs_fd (add_encrypted_file fd f k) = register_key (abs_fd fd) f k"
  using assms by (simp add: abs_fd_def register_key_def attempts_of_def banned_list_def)

lemma add_encrypted_file_registered_differs:
  "registry (abs_fd (add_encrypted_file demo_registered ''out.bin'' 9)) ''out.bin'' = Some 9
   \<and> registry (register_key (abs_fd demo_registered) ''out.bin'' 9) ''out.bin'' = Some 7"
  by (simp add: demo_registered_def file_data_new_def register_key_def)

end
