(* ===== verification/Address.thy ===== *)
theory Address
  imports Session
begin

text \<open>
  The caller address of line 67: \<open>local_ip()\<close> of the \<open>local_ip_address\<close> crate returns an
  IPv4 address of the machine (its network query is not modelled: the address is a
  parameter), \<open>expect\<close> turns a failure into the start-up panic, and \<open>to_string()\<close> is the
  standard library's \<open>Display\<close> for \<open>Ipv4Addr\<close>: the four octets in decimal joined by
  dots. That string is the address every counter and ban of \<open>FileData\<close> is keyed by.
  \<open>parse_ipv4\<close> reads dotted-decimal text back, and the printed address is read back
  exactly (a fact of the library's formatting, kept here to document the model).
\<close>

datatype ipv4 = Ipv4 byte byte byte byte

text \<open>\<open>impl Display for Ipv4Addr\<close>: \<open>"{}.{}.{}.{}"\<close> of the octets, each printed as
  \<open>Display for u8\<close> does, in decimal without leading zeros (\<open>dec_string\<close>).\<close>

fun ipv4_to_string :: "ipv4 \<Rightarrow> string" where
  "ipv4_to_string (Ipv4 a b c d) =
     dec_string (unat a) @ ''.'' @ dec_string (unat b) @ ''.'' @ dec_string (unat c) @ ''.''
     @ dec_string (unat d)"

text \<open>Line 67: \<open>local_ip().expect("Can't get your ip").to_string()\<close>, then \<open>FileData::new()\<close>.\<close>

definition main_start_ipv4 ::
  "ipv4 option \<Rightarrow> (string \<rightharpoonup> byte list) \<Rightarrow> startup_panic + string \<times> session" where
  "main_start_ipv4 local_ip fs = main_start (map_option ipv4_to_string local_ip) fs"

text \<open>The reference reader of dotted-decimal text: split at the dots, four non-empty runs
  of digits, each below 256.\<close>

fun split_on :: "char \<Rightarrow> string \<Rightarrow> string list" where
  "split_on sep [] = [[]]"
| "split_on sep (x # xs) =
     (if x = sep then [] # split_on sep xs
      else (case split_on sep xs of [] \<Rightarrow> [[x]] | w # ws \<Rightarrow> (x # w) # ws))"

definition octet_of :: "string \<Rightarrow> byte option" where
  "octet_of ds =
     (if ds \<noteq> [] \<and> list_all is_digit ds \<and> dec_value_from 0 ds < 256
      then Some (of_nat (dec_value_from 0 ds)) else None)"

definition parse_ipv4 :: "string \<Rightarrow> ipv4 option" where
  "parse_ipv4 s =
     (case split_on CHR ''.'' s of
        [a, b, c, d] \<Rightarrow>
          (case (octet_of a, octet_of b, octet_of c, octet_of d) of
             (Some a', Some b', Some c', Some d') \<Rightarrow> Some (Ipv4 a' b' c' d')
           | _ \<Rightarrow> None)
      | _ \<Rightarrow> None)"

lemma split_on_no_sep: "sep \<notin> set xs \<Longrightarrow> split_on sep xs = [xs]"
  by (induction xs) auto

lemma split_on_append: "sep \<notin> set xs \<Longrightarrow> split_on sep (xs @ sep # ys) = xs # split_on sep ys"
  by (induction xs) (auto split: list.split)

lemma dec_string_no_dot: "CHR ''.'' \<notin> set (dec_string n)"
proof
  assume "CHR ''.'' \<in> set (dec_string n)"
  moreover have "list_all is_digit (dec_string n)" using dec_string_props [of n] by simp
  ultimately have "is_digit (CHR ''.'')" by (auto simp: list_all_iff)
  then show False by (simp add: is_digit_def)
qed

lemma unat_byte_less: "unat (x :: byte) < 256"
  using unsigned_less [of x] by simp

lemma octet_of_dec_string: "octet_of (dec_string (unat (a :: byte))) = Some a"
proof -
  have p: "dec_string (unat a) \<noteq> [] \<and> list_all is_digit (dec_string (unat a))
      \<and> dec_value_from 0 (dec_string (unat a)) = unat a" by (rule dec_string_props)
  from p unat_byte_less [of a] show ?thesis by (simp add: octet_of_def)
qed

lemma ipv4_to_string_parse: "parse_ipv4 (ipv4_to_string ip) = Some ip"
proof (cases ip)
  case (Ipv4 a b c d)
  have "split_on CHR ''.'' (ipv4_to_string ip) =
      [dec_string (unat a), dec_string (unat b), dec_string (unat c), dec_string (unat d)]"
    using Ipv4 by (simp add: split_on_append split_on_no_sep dec_string_no_dot)
  then show ?thesis using Ipv4 by (simp add: parse_ipv4_def octet_of_dec_string)
qed

end
