(* ===== verification/Spec2Isabelle.thy ===== *)
theory Spec2Isabelle
  imports Stdout Access_Guard Address
begin

text \<open>
  \<^bold>\<open>A verification development of FileEncrypterDecrypter\<close> (\<^verbatim>\<open>src/src/main.rs\<close>).

  \<^bold>\<open>The program.\<close> One Rust file. \<open>main\<close> looks up the local address once
  (\<open>local_ip().expect(..)\<close>), creates an empty \<open>FileData\<close> and loops forever. Each
  iteration asks for an input file name and opens it, refuses a banned address, asks for a
  key and parses it as a \<open>u8\<close>, refuses key 0, compares the key with the one registered
  for the input name (a mismatch calls \<open>change_ip_attempts\<close>, which bans the address at
  the third failure), then reads the file, masks every byte with the key
  (\<open>process_file_data\<close>), asks for an output name, creates it, registers the output name
  with the key when the input name was not registered, and writes. Every failure prints
  a message and \<open>continue\<close>s. \<open>FileData\<close> holds three \<open>HashMap\<close>s: the key of each
  registered name, the banned addresses of each name, and a \<open>u8\<close> failure counter per
  \<open>vec![name, address]\<close>.

  \<^bold>\<open>Theories and what they model.\<close>
  \<^item> \<open>Prelude\<close>: the byte type (\<open>u8\<close> as \<open>8 word\<close>), \<open>contains_key\<close> on partial
    maps, the fact collections \<open>guard_defs\<close> and \<open>cycle_defs\<close>, shared lemmas on bytes.
  \<^item> \<open>Cipher\<close>: \<open>process_file_data\<close> (lines 16--23); its push loop is
    \<open>process_file_data_loop\<close> with the vector as accumulator.
  \<^item> \<open>Utf8\<close>: UTF-8 as the Rust library reads it (not code of this repository):
    \<open>utf8_next\<close> splits off one character with the library's width table and second-byte
    ranges, \<open>utf8_chars\<close> splits a string into characters (\<open>None\<close> when it is not
    UTF-8), \<open>char_value\<close> decodes one.
  \<^item> \<open>Console\<close>: \<open>get_input\<close> (lines 6--14) as \<open>str::trim\<close> of the line read, on UTF-8
    characters with the Unicode white-space table of \<open>char::is_whitespace\<close>; the key
    prompt \<open>read_key\<close> and its messages \<open>report_key_error\<close> (lines 89--103). \<open>str::trim\<close>
    and \<open>u8::from_str\<close> are Rust library code, modelled from their documented behaviour:
    optional \<open>+\<close>, decimal digits checked left to right with \<open>checked_mul\<close> and
    \<open>checked_add\<close>, and the unchecked fast path the library takes for at most two digits.
  \<^item> \<open>File_Data\<close>: the struct (lines 25--29) as a record of partial maps, \<open>new\<close>,
    \<open>add_encrypted_file\<close>, \<open>add_banned_ip\<close>, \<open>change_ip_attempts\<close> (lines 31--64) as
    functions returning the new record, and the two guards of \<open>main\<close>,
    \<open>access_denied\<close> (lines 82--87) and \<open>incorrect_key\<close> (lines 110--115).
  \<^item> \<open>Access_Guard\<close>: the specification's AccessGuard contract (\<open>is_banned\<close>,
    \<open>check_key\<close>, \<open>record_failure\<close>, \<open>register_key\<close>) on an abstract state with unbounded
    counters and ban sets, and the abstraction \<open>abs_fd\<close> of \<open>FileData\<close>.
  \<^item> \<open>Session\<close>: one loop iteration \<open>main_iteration\<close> (lines 71--148) on a state of
    \<open>FileData\<close> and the file system (names to byte lists); the operator's three lines
    and the file-system failures are a \<open>request\<close>; each \<open>continue\<close> is a
    \<open>cycle_outcome\<close>. \<open>process_and_write\<close> is lines 118--148, \<open>main_loop\<close> runs a finite
    list of requests, \<open>main_start\<close> the start-up, and \<open>reachable\<close> the states of a running
    process (start, iterations, and changes of the file system by other programs).
  \<^item> \<open>Stdin\<close>: standard input as the string of unread bytes. \<open>read_line\<close> takes one
    line (an empty one at the end of input) and panics (\<open>StdinNotUtf8\<close>) when its bytes
    are not UTF-8; \<open>main_iteration_stdin\<close> is the loop body with the three prompts read
    when the code reaches them (the key only after the open and the ban test, the output
    name only after the input was read), the file system's answers a \<open>fs_reply\<close>;
    \<open>run_stdin\<close> runs the loop until the input is used up. It is proved to be
    \<open>main_iteration\<close> on the lines it reads, which carries every result on requests over;
    every run on standard input is simulated by \<open>main_loop\<close> on the requests it read.
  \<^item> \<open>Stdout\<close>: what the loop prints: the banner, each prompt just before its line is
    read, and the message of every outcome (\<open>outcome_message\<close>, with the standard
    library's text of an \<open>io::Error\<close>); \<open>main_iteration_console\<close> is an iteration on
    standard input with the text it prints, and \<open>main_iteration_tty\<close> lets the state of
    descriptor 1 decide whether it runs: a broken pipe makes the banner's \<open>println!\<close>
    panic, a closed descriptor swallows the text (as \<open>std\<close>'s \<open>handle_ebadf\<close> does).
  \<^item> \<open>Address\<close>: line 67, \<open>local_ip().expect(..).to_string()\<close>, as
    \<open>main_start_ipv4\<close> on an optional \<open>Ipv4Addr\<close> (\<open>ipv4\<close>) printed by the standard
    library's \<open>Display\<close> (\<open>ipv4_to_string\<close>, four decimal octets and dots), with a
    reference reader \<open>parse_ipv4\<close> of dotted-decimal text.
  \<^item> \<open>Spec2Isabelle\<close> (this theory): the specification's cycle (section 4.2) on the
    abstract state, \<open>spec_cycle\<close> with its steps 6--11 \<open>spec_process\<close>, which computes
    the outcome from the guard state and the file system's answers, and the refinement
    of the loop body by it.

  \<^bold>\<open>What is proved.\<close> The access-control behaviour first: a ban is permanent and every
  later attempt on the file is denied, on requests and on standard input (where the
  denied iteration reads only the file name); three wrong keys ban and the fourth
  attempt is denied; \<open>change_ip_attempts\<close> bans after exactly three failures; in every
  reachable state each counter is between 1 and 3 (so the \<open>u8\<close> increment never wraps,
  and a debug build never panics) and a file has a ban vector exactly when its counter
  is 3, holding the address once, also along runs on standard input; one iteration ends
  with the outcome and the guard state that the specification's cycle computes, except
  for the overwrite below; the two guards are the contract's \<open>is_banned\<close> and
  \<open>WrongKey\<close>; failures of one address never change another's counter or access.
  Then the iteration: key 0 never reaches the registry; error outcomes leave the state
  unchanged; a successful iteration writes the masked input and registers the output
  name exactly when the input was unregistered; a failed write of a small output is
  reported as success, truncates the output and still registers it; a write error is
  reported only for outputs of at least 8 KiB, which \<open>BufWriter\<close> writes straight
  through; encrypting and then decrypting through the loop restores the contents. On
  standard input an iteration consumes exactly the lines its outcome needs and panics
  exactly when one of them is not UTF-8, and at the end of input it repeats without
  change. The printed text of an iteration determines its outcome. The transform is a
  byte-wise XOR, the identity exactly for key 0. The key prompt reads decimal numerals
  exactly (with their overflow), reads back every printed key surrounded by any Unicode
  white space, and prints each error message for exactly its case (never the fallback);
  \<open>get_input\<close> returns exactly the slice of the line between its surrounding white space.

  \<^bold>\<open>What modelling showed\<close> (the findings of the manifest): the output name's key is
  replaced when another unregistered input is written to it,
  against the specification's "first registration wins"; the output name is registered
  before the write, and a small output whose write fails is reported as processed while
  the file keeps only the bytes accepted before the failure and the output name stays
  registered (the flush in \<open>Drop\<close>
  discards the error); at the end of standard input the loop spins forever on the empty
  file name; a line of standard input that is not UTF-8 panics the process, although
  the specification says every error but the address lookup is reported and retried;
  a standard output whose pipe reader has gone panics the process at the banner
  (\<open>main_iteration_tty\<close>), an error the specification's taxonomy does not have.

  \<^bold>\<open>Bounds and fuel.\<close> The loop never ends, so no fuel is used: finite prefixes of a
  run are lists of requests, and all runs at once are the \<open>reachable\<close> states, whose
  invariant (\<open>guard_inv\<close>) is proved by rule induction. The run on standard input,
  \<open>run_stdin\<close>, stops when the input is used up, which the program does not: there
  every further iteration reads empty lines and changes nothing (the end-of-input
  property), so stopping loses no state. \<open>run_stdin\<close> is a total function; its
  termination is proved with the measure "bytes left", since every iteration on a
  non-empty input consumes at least one line of at least one byte. The counter bound 3
  comes from that invariant; 8 KiB is \<open>BufWriter\<close>'s default capacity.

  \<^bold>\<open>Not modelled.\<close> The crate \<open>local_ip_address\<close>'s enumeration of network
  interfaces (which address it returns, or none, is a parameter of the start-up); read
  errors of standard input other than invalid UTF-8; a standard output that breaks in the
  middle of an iteration (its state is fixed for the iteration: the model panics at the
  banner, the first write, when the pipe is already broken); the text of I/O errors other
  than the four kinds modelled; files changed by other programs during an iteration (the
  input is read as it was when opened); the kernel's short writes, which \<open>write_all\<close>
  retries until done or failed. \<open>BufWriter\<close> is modelled by its observable effect
  (\<open>buf_writer_write_all\<close>, 8 KiB capacity, from the standard library, not under
  \<^verbatim>\<open>src/\<close>): a direct write from 8 KiB whose failure is reported, a buffered write
  below it whose failure in the final flush is dropped; a failed write leaves the bytes
  written so far, a prefix whose length the request gives. Every operation of \<open>main.rs\<close>
  that changes state is a definition of the development; what remains outside is library
  and operating-system behaviour the code only calls.

  \<^bold>\<open>Further work.\<close> Runs on standard input with several processes (each with its own
  address and \<open>FileData\<close>, since nothing is shared between processes), and a standard
  output that breaks after a given number of bytes.
\<close>

text \<open>
  The specification's cycle (section 4.2, steps 1--11) on the abstract guard state of
  \<open>Access_Guard\<close>. It decides the outcome itself, from the guard state and the answers
  of the collaborators the specification treats as external: the open of the input (the
  file's bytes or an error), the parse of the key line, the read, the create, and the
  write of the transformed bytes. \<open>spec_process\<close> is steps 6--11.
\<close>

definition spec_process ::
  "guard \<Rightarrow> string \<Rightarrow> byte \<Rightarrow> byte list \<Rightarrow> io_error option \<Rightarrow> string \<Rightarrow> io_error option
   \<Rightarrow> (byte list \<Rightarrow> io_error option) \<Rightarrow> cycle_outcome \<times> guard" where
  "spec_process g f key data read_res out_name create_res write =
     (case read_res of
        Some e \<Rightarrow> (ReadError e, g)
      | None \<Rightarrow>
          (case create_res of
             Some e \<Rightarrow> (CantCreate e, g)
           | None \<Rightarrow>
               (let g' = (if check_key g f key = Unregistered then register_key g out_name key else g)
                in case write (process_file_data data key) of
                     Some e \<Rightarrow> (WriteError e, g')
                   | None \<Rightarrow> (Processed, g'))))"

definition spec_cycle ::
  "guard \<Rightarrow> string \<Rightarrow> string \<Rightarrow> io_error + byte list \<Rightarrow> int_error_kind + byte \<Rightarrow> io_error option
   \<Rightarrow> string \<Rightarrow> io_error option \<Rightarrow> (byte list \<Rightarrow> io_error option) \<Rightarrow> cycle_outcome \<times> guard" where
  "spec_cycle g ip f opened key read_res out_name create_res write =
     (case opened of
        Inl e \<Rightarrow> (CantOpen e, g)
      | Inr data \<Rightarrow>
          if is_banned g f ip then (AccessDenied, g)
          else
            (case key of
               Inl e \<Rightarrow> (BadKey (report_key_error e), g)
             | Inr k \<Rightarrow>
                 if k = 0 then (UselessKey, g)
                 else if check_key g f k = WrongKey then (IncorrectKey, record_failure g f ip)
                 else spec_process g f k data read_res out_name create_res write))"

subsection \<open>The loop refines the specification's cycle\<close>

lemma guard_inv_attempts_lt:
  "guard_inv ip fd \<Longrightarrow> attempts_of fd f a < 255"
  using guard_inv_attempts_le [of ip fd f a] by simp

lemma process_and_write_refines:
  assumes "process_and_write st rq f d k = (out, st')" "\<not> incorrect_key (info st) f k"
    "contains_key (encrypted_file (info st)) f
     \<or> \<not> contains_key (encrypted_file (info st)) (get_input (output_line rq))"
  shows "(out, abs_fd (info st')) = spec_process (abs_fd (info st)) f k d (read_error rq)
           (get_input (output_line rq)) (create_error rq)
           (\<lambda>bytes. fst (buf_writer_write_all bytes (write_error rq)))"
proof -
  have g: "abs_fd (if \<not> contains_key (encrypted_file (info st)) f
                   then add_encrypted_file (info st) (get_input (output_line rq)) k else info st)
      = (if check_key (abs_fd (info st)) f k = Unregistered
         then register_key (abs_fd (info st)) (get_input (output_line rq)) k else abs_fd (info st))"
  proof (cases "contains_key (encrypted_file (info st)) f")
    case True
    with assms(2) show ?thesis by (auto simp: check_key_def incorrect_key_def)
  next
    case False
    with assms(3) show ?thesis by (simp add: check_key_def add_encrypted_file_refines)
  qed
  show ?thesis
    using assms(1) g
    by (auto simp: process_and_write_def spec_process_def Let_def
        split: option.splits prod.splits)
qed

text \<open>
  C8: in every reachable state an iteration ends with the outcome the specification's
  cycle computes on the abstracted guard state, and leaves the guard state the cycle
  leaves (record_failure on a wrong key, register_key of the output name after the create
  when the input was unregistered), the file system's answers being those the iteration
  received; excluded is an output name already registered while the input is not, where
  the code overwrites the key (the session theory's overwrite).
\<close>

theorem iteration_refines:
  assumes "reachable ip st" and "main_iteration ip st rq = (out, st')"
    and "contains_key (encrypted_file (info st)) (get_input (input_line rq))
         \<or> \<not> contains_key (encrypted_file (info st)) (get_input (output_line rq))"
  shows "(out, abs_fd (info st')) =
    spec_cycle (abs_fd (info st)) ip (get_input (input_line rq))
      (open_file (files st) (open_error rq) (get_input (input_line rq)))
      (read_key (key_line rq)) (read_error rq) (get_input (output_line rq)) (create_error rq)
      (\<lambda>bytes. fst (buf_writer_write_all bytes (write_error rq)))"
proof -
  let ?f = "get_input (input_line rq)"
  have inv: "guard_inv ip (info st)" using assms(1) by (rule reachable_inv)
  show ?thesis
  proof (cases "open_file (files st) (open_error rq) ?f")
    case (Inl e)
    with assms(2) show ?thesis by (simp add: main_iteration_open spec_cycle_def)
  next
    case (Inr d)
    show ?thesis
    proof (cases "access_denied (info st) ?f ip")
      case True
      with Inr assms(2) show ?thesis
        by (simp add: main_iteration_denied spec_cycle_def access_denied_abs)
    next
      case allowed: False
      show ?thesis
      proof (cases "read_key (key_line rq)")
        case (Inl e)
        with Inr allowed assms(2) show ?thesis
          by (simp add: main_iteration_allowed spec_cycle_def access_denied_abs)
      next
        case k: (Inr key)
        consider "key = 0" | "key \<noteq> 0" "incorrect_key (info st) ?f key"
          | "key \<noteq> 0" "\<not> incorrect_key (info st) ?f key" by blast
        then show ?thesis
        proof cases
          case 1
          with Inr allowed k assms(2) show ?thesis
            by (simp add: main_iteration_allowed spec_cycle_def access_denied_abs)
        next
          case 2
          with Inr allowed k assms(2) show ?thesis
            using change_ip_attempts_refines [OF guard_inv_attempts_lt [OF inv]]
            by (auto simp: main_iteration_allowed spec_cycle_def access_denied_abs incorrect_key_abs)
        next
          case 3
          with Inr allowed k assms(2)
          have "process_and_write st rq ?f d key = (out, st')"
            by (simp add: main_iteration_allowed)
          from process_and_write_refines [OF this 3(2) assms(3)] 3 Inr allowed k
          show ?thesis by (simp add: spec_cycle_def access_denied_abs incorrect_key_abs)
        qed
      qed
    qed
  qed
qed

theorem iteration_refines_witness:
  "(fst (main_iteration demo_ip (snd (main_iteration demo_ip demo_st demo_encrypt)) demo_wrong), abs_fd (info (snd (main_iteration demo_ip (snd (main_iteration demo_ip demo_st demo_encrypt)) demo_wrong))))
   = spec_cycle (abs_fd (info (snd (main_iteration demo_ip demo_st demo_encrypt)))) demo_ip (get_input (input_line demo_wrong))
       (open_file (files (snd (main_iteration demo_ip demo_st demo_encrypt))) (open_error demo_wrong) (get_input (input_line demo_wrong)))
       (read_key (key_line demo_wrong)) (read_error demo_wrong) (get_input (output_line demo_wrong))
       (create_error demo_wrong) (\<lambda>bytes. fst (buf_writer_write_all bytes (write_error demo_wrong)))"
proof -
  let ?s1 = "(snd (main_iteration demo_ip demo_st demo_encrypt))"
  have r0: "reachable demo_ip demo_st" by (rule reachable_demo)
  have r1: "reachable demo_ip ?s1"
    by (rule reachable.iteration [OF r0, of demo_encrypt "fst (main_iteration demo_ip demo_st demo_encrypt)"])
       simp
  have h: "main_iteration demo_ip ?s1 demo_wrong
      = (fst (main_iteration demo_ip ?s1 demo_wrong), snd (main_iteration demo_ip ?s1 demo_wrong))"
    by simp
  have c: "contains_key (encrypted_file (info ?s1)) (get_input (input_line demo_wrong))" by code_simp
  show ?thesis using iteration_refines [OF r1 h] c by simp
qed

end
